theory Spec2Isabelle
  imports Main "HOL-Library.AList"
begin

section \<open>Python values\<close>

text \<open>
  A Python \<open>str\<close> is a sequence of Unicode code points; a code point is a natural number.
  \<open>ustr\<close> turns an ASCII literal of the theory into such a sequence.
\<close>

type_synonym pystr = "nat list"

definition ustr :: "string \<Rightarrow> pystr" where
  "ustr s = map of_char s"

text \<open>
  Floats are only passed around (ratings, scores) and tested for truth; \<open>Finite m e\<close> stands
  for \<open>m * 2 ^ e\<close>.
\<close>

datatype pyfloat = Finite int int | NaN | Infinity bool

text \<open>
  The values that \<open>json.loads\<close> produces and that the cells of a DataFrame hold. A dict is
  kept as the list of its items in insertion order; its keys are distinct.
\<close>

datatype pyval =
    PyNone
  | PyBool bool
  | PyInt int
  | PyFloat pyfloat
  | PyStr pystr
  | PyList "pyval list"
  | PyDict "(pyval \<times> pyval) list"

datatype error =
    ValueError
  | KeyError pystr
  | TypeError
  | AttributeError
  | HTTPError nat
  | JSONDecodeError
  | ExternalError

section \<open>preprocess.py: clean\_text\<close>

text \<open>
  Whitespace as \<open>\s\<close> of \<open>re\<close> on \<open>str\<close> patterns and \<open>str.strip()\<close> see it
  (\<open>Py_UNICODE_ISSPACE\<close>).
\<close>

definition is_space :: "nat \<Rightarrow> bool" where
  "is_space c =
     ((9 \<le> c \<and> c \<le> 13) \<or> (28 \<le> c \<and> c \<le> 32) \<or> c = 133 \<or> c = 160 \<or> c = 5760
      \<or> (8192 \<le> c \<and> c \<le> 8202) \<or> c = 8232 \<or> c = 8233 \<or> c = 8239 \<or> c = 8287
      \<or> c = 12288)"

text \<open>
  \<open>re.sub(r"http\S+|www\.\S+", "", text)\<close>. A match starts where the text reads
  \<open>http\<close> or \<open>www.\<close> followed by at least one non-whitespace character, and the greedy
  \<open>\S+\<close> takes it to the end of the run of non-whitespace. \<open>re.sub\<close> deletes the leftmost
  match and goes on behind it.
\<close>

fun url_at :: "pystr \<Rightarrow> bool" where
  "url_at (a # b # c # d # e # rest) =
     (([a, b, c, d] = ustr ''http'' \<or> [a, b, c, d] = ustr ''www.'') \<and> \<not> is_space e)"
| "url_at short = False"

function remove_urls :: "pystr \<Rightarrow> pystr" where
  "remove_urls [] = []"
| "remove_urls (c # cs) =
     (if url_at (c # cs) then remove_urls (dropWhile (\<lambda>x. \<not> is_space x) cs)
      else c # remove_urls cs)"
  by pat_completeness auto
termination
proof (relation "measure length")
  show "wf (measure length)" by simp
next
  fix c :: nat and cs :: pystr
  have "length (dropWhile (\<lambda>x. \<not> is_space x) cs) \<le> length cs"
    by (rule length_dropWhile_le)
  then show "(dropWhile (\<lambda>x. \<not> is_space x) cs, c # cs) \<in> measure length" by simp
next
  fix c :: nat and cs :: pystr
  show "(cs, c # cs) \<in> measure length" by simp
qed

text \<open>\<open>re.sub(r"[^A-Za-z0-9\s\.,!?']", " ", text)\<close>: every other character becomes a space.\<close>

definition is_upper :: "nat \<Rightarrow> bool" where
  "is_upper c = (65 \<le> c \<and> c \<le> 90)"

definition is_lower :: "nat \<Rightarrow> bool" where
  "is_lower c = (97 \<le> c \<and> c \<le> 122)"

definition is_digit :: "nat \<Rightarrow> bool" where
  "is_digit c = (48 \<le> c \<and> c \<le> 57)"

definition is_punct :: "nat \<Rightarrow> bool" where
  "is_punct c = (c = 46 \<or> c = 44 \<or> c = 33 \<or> c = 63 \<or> c = 39)"

definition allowed :: "nat \<Rightarrow> bool" where
  "allowed c = (is_upper c \<or> is_lower c \<or> is_digit c \<or> is_space c \<or> is_punct c)"

definition replace_special :: "pystr \<Rightarrow> pystr" where
  "replace_special s = map (\<lambda>c. if allowed c then c else 32) s"

text \<open>
  \<open>str.lower()\<close>. The letters A to Z go to a to z. Python also lowers cased letters
  outside ASCII by the Unicode tables; none of them becomes one of the letters that this
  program looks for, and \<open>clean_text\<close> lowers a text that has only ASCII letters left, so
  they are left as they are here.
\<close>

definition lower_char :: "nat \<Rightarrow> nat" where
  "lower_char c = (if is_upper c then c + 32 else c)"

definition lower :: "pystr \<Rightarrow> pystr" where
  "lower s = map lower_char s"

text \<open>\<open>re.sub(r"\s+", " ", text)\<close>: every maximal run of whitespace becomes one space.\<close>

function collapse_spaces :: "pystr \<Rightarrow> pystr" where
  "collapse_spaces [] = []"
| "collapse_spaces (c # cs) =
     (if is_space c then 32 # collapse_spaces (dropWhile is_space cs)
      else c # collapse_spaces cs)"
  by pat_completeness auto
termination
proof (relation "measure length")
  show "wf (measure length)" by simp
next
  fix c :: nat and cs :: pystr
  have "length (dropWhile is_space cs) \<le> length cs"
    by (rule length_dropWhile_le)
  then show "(dropWhile is_space cs, c # cs) \<in> measure length" by simp
next
  fix c :: nat and cs :: pystr
  show "(cs, c # cs) \<in> measure length" by simp
qed

text \<open>\<open>str.strip()\<close> with no argument.\<close>

definition strip :: "pystr \<Rightarrow> pystr" where
  "strip s = rev (dropWhile is_space (rev (dropWhile is_space s)))"

definition clean_str :: "pystr \<Rightarrow> pystr" where
  "clean_str text =
     strip (collapse_spaces (lower (replace_special (remove_urls text))))"

text \<open>\<open>clean_text\<close> takes any object and returns a \<open>str\<close>.\<close>

definition clean_text :: "pyval \<Rightarrow> pystr" where
  "clean_text text = (case text of PyStr s \<Rightarrow> clean_str s | _ \<Rightarrow> [])"

text \<open>A text has a URL where \<open>remove_urls\<close> finds a match.\<close>

fun has_url :: "pystr \<Rightarrow> bool" where
  "has_url [] = False"
| "has_url (c # cs) = (url_at (c # cs) \<or> has_url cs)"

text \<open>
  What a cleaned text looks like: its characters are lowercase letters, digits, the kept
  punctuation and whitespace (\<open>plain_char\<close>), and its whitespace is single spaces
  (\<open>tidy\<close>).
\<close>

definition plain_char :: "nat \<Rightarrow> bool" where
  "plain_char c = (is_lower c \<or> is_digit c \<or> is_space c \<or> is_punct c)"

fun tidy :: "pystr \<Rightarrow> bool" where
  "tidy [] = True"
| "tidy [c] = (is_space c \<longrightarrow> c = 32)"
| "tidy (c # d # r) = ((is_space c \<longrightarrow> c = 32 \<and> \<not> is_space d) \<and> tidy (d # r))"

section \<open>Built-in operations\<close>

text \<open>Truth value of an object, as \<open>not x\<close> and \<open>x or y\<close> test it.\<close>

fun truthy :: "pyval \<Rightarrow> bool" where
  "truthy PyNone = False"
| "truthy (PyBool b) = b"
| "truthy (PyInt i) = (i \<noteq> 0)"
| "truthy (PyFloat (Finite m e)) = (m \<noteq> 0)"
| "truthy (PyFloat f) = True"
| "truthy (PyStr s) = (s \<noteq> [])"
| "truthy (PyList xs) = (xs \<noteq> [])"
| "truthy (PyDict items) = (items \<noteq> [])"

definition is_dict :: "pyval \<Rightarrow> bool" where
  "is_dict v = (case v of PyDict items \<Rightarrow> True | _ \<Rightarrow> False)"

definition is_str :: "pyval \<Rightarrow> bool" where
  "is_str v = (case v of PyStr s \<Rightarrow> True | _ \<Rightarrow> False)"

text \<open>\<open>obj.get(key, default)\<close>: only a dict has the method.\<close>

definition py_get :: "pyval \<Rightarrow> pyval \<Rightarrow> pyval \<Rightarrow> error + pyval" where
  "py_get obj key dflt =
     (case obj of
        PyDict items \<Rightarrow> Inr (case map_of items key of None \<Rightarrow> dflt | Some v \<Rightarrow> v)
      | _ \<Rightarrow> Inl AttributeError)"

text \<open>\<open>for x in obj\<close>: the elements of a list, the characters of a str, the keys of a dict.\<close>

definition py_iter :: "pyval \<Rightarrow> error + pyval list" where
  "py_iter obj =
     (case obj of
        PyList xs \<Rightarrow> Inr xs
      | PyStr s \<Rightarrow> Inr (map (\<lambda>c. PyStr [c]) s)
      | PyDict items \<Rightarrow> Inr (map fst items)
      | _ \<Rightarrow> Inl TypeError)"

text \<open>\<open>sub in s\<close> on two strings.\<close>

fun contains :: "pystr \<Rightarrow> pystr \<Rightarrow> bool" where
  "contains sub [] = (sub = [])"
| "contains sub (c # cs) = (take (length sub) (c # cs) = sub \<or> contains sub cs)"

text \<open>\<open>sep.join(items)\<close>: every item has to be a str.\<close>

fun join :: "pystr \<Rightarrow> pyval list \<Rightarrow> error + pystr" where
  "join sep [] = Inr []"
| "join sep [PyStr s] = Inr s"
| "join sep (PyStr s # x # xs) =
     (case join sep (x # xs) of Inl e \<Rightarrow> Inl e | Inr r \<Rightarrow> Inr (s @ sep @ r))"
| "join sep (v # xs) = Inl TypeError"

text \<open>\<open>str(x)\<close>, which an f-string and \<open>astype(str)\<close> apply.\<close>

fun digits :: "nat \<Rightarrow> pystr" where
  "digits n = (if n < 10 then [48 + n] else digits (n div 10) @ [48 + n mod 10])"

declare digits.simps [simp del]

definition str_int :: "int \<Rightarrow> pystr" where
  "str_int i = (if i < 0 then 45 # digits (nat (- i)) else digits (nat i))"

text \<open>
  The text of a finite float, a list or a dict comes from the interpreter's \<open>repr\<close>, which
  is the parameter \<open>render\<close>.
\<close>

fun py_str :: "(pyval \<Rightarrow> pystr) \<Rightarrow> pyval \<Rightarrow> pystr" where
  "py_str render PyNone = ustr ''None''"
| "py_str render (PyBool b) = (if b then ustr ''True'' else ustr ''False'')"
| "py_str render (PyInt i) = str_int i"
| "py_str render (PyFloat NaN) = ustr ''nan''"
| "py_str render (PyFloat (Infinity neg)) = (if neg then ustr ''-inf'' else ustr ''inf'')"
| "py_str render (PyStr s) = s"
| "py_str render v = render v"

section \<open>DataFrames\<close>

text \<open>
  A DataFrame is its number of rows and its columns in order, each a name and the cells
  of the column. Column names are distinct and every column has \<open>nrows\<close> cells.
\<close>

record dataframe =
  nrows :: nat
  columns :: "(pystr \<times> pyval list) list"

definition wf_frame :: "dataframe \<Rightarrow> bool" where
  "wf_frame df =
     (distinct (map fst (columns df)) \<and> list_all (\<lambda>c. length (snd c) = nrows df) (columns df))"

text \<open>\<open>name in df.columns\<close>\<close>

definition has_column :: "dataframe \<Rightarrow> pystr \<Rightarrow> bool" where
  "has_column df name = (name \<in> set (map fst (columns df)))"

text \<open>\<open>df[name]\<close>\<close>

definition get_column :: "dataframe \<Rightarrow> pystr \<Rightarrow> error + pyval list" where
  "get_column df name =
     (case map_of (columns df) name of None \<Rightarrow> Inl (KeyError name) | Some col \<Rightarrow> Inr col)"

text \<open>
  \<open>df[name] = values\<close>: an existing column is replaced where it stands, a new one is put
  last. A Series taken from the same frame always fits. A list has to be as long as the
  frame; only a frame with no rows takes a non-empty list, and then gets that many rows,
  its other columns filled with missing values.
\<close>

definition assign_series :: "dataframe \<Rightarrow> pystr \<Rightarrow> pyval list \<Rightarrow> dataframe" where
  "assign_series df name vals = df\<lparr>columns := AList.update name vals (columns df)\<rparr>"

definition grow :: "dataframe \<Rightarrow> nat \<Rightarrow> dataframe" where
  "grow df n =
     \<lparr>nrows = n,
      columns = map (\<lambda>(name, col). (name, replicate n (PyFloat NaN))) (columns df)\<rparr>"

definition assign_list :: "dataframe \<Rightarrow> pystr \<Rightarrow> pyval list \<Rightarrow> error + dataframe" where
  "assign_list df name vals =
     (if nrows df = 0 \<and> vals \<noteq> [] then Inr (assign_series (grow df (length vals)) name vals)
      else if length vals \<noteq> nrows df then Inl ValueError
      else Inr (assign_series df name vals))"

text \<open>\<open>df.head(n)\<close>: the first \<open>n\<close> rows; all but the last \<open>-n\<close> for a negative \<open>n\<close>.\<close>

definition head_count :: "nat \<Rightarrow> int \<Rightarrow> nat" where
  "head_count len n = (if n < 0 then len - nat (- n) else min len (nat n))"

definition head :: "dataframe \<Rightarrow> int \<Rightarrow> dataframe" where
  "head df n =
     \<lparr>nrows = head_count (nrows df) n,
      columns = map (\<lambda>(name, col). (name, take (head_count (nrows df) n) col)) (columns df)\<rparr>"

text \<open>
  \<open>series.value_counts().to_dict()\<close>: missing values are dropped, each value is counted,
  the most frequent comes first.
\<close>

definition is_null :: "pyval \<Rightarrow> bool" where
  "is_null v = (v = PyNone \<or> v = PyFloat NaN)"

definition value_counts :: "pyval list \<Rightarrow> (pyval \<times> nat) list" where
  "value_counts col =
     (let present = filter (\<lambda>v. \<not> is_null v) col
      in sort_key (\<lambda>p. - int (snd p))
           (map (\<lambda>v. (v, count_list present v)) (rev (remdups (rev present)))))"

definition to_dict :: "(pyval \<times> nat) list \<Rightarrow> pyval" where
  "to_dict counts = PyDict (map (\<lambda>(v, n). (v, PyInt (int n))) counts)"

text \<open>
  DataFrames are objects: the store holds them, and a reference is an index into it.
  \<open>df.copy()\<close> makes a new object with the same content.
\<close>

type_synonym store = "dataframe list"

definition df_copy :: "store \<Rightarrow> nat \<Rightarrow> nat \<times> store" where
  "df_copy st df = (length st, st @ [st ! df])"

section \<open>preprocess.py: preprocess\_reviews\<close>

text \<open>
  \<open>series.astype(str)\<close> turns a cell that is not missing into its \<open>str\<close>. What becomes
  of a missing cell depends on the pandas that runs: pandas 1 and 2 make it the text
  \<open>None\<close> or \<open>nan\<close>, pandas 3 keeps it missing. That is the parameter \<open>missing\<close>.
\<close>

definition astype_cell :: "(pyval \<Rightarrow> pystr) \<Rightarrow> (pyval \<Rightarrow> pyval) \<Rightarrow> pyval \<Rightarrow> pyval" where
  "astype_cell render missing v = (if is_null v then missing v else PyStr (py_str render v))"

definition astype_str ::
  "(pyval \<Rightarrow> pystr) \<Rightarrow> (pyval \<Rightarrow> pyval) \<Rightarrow> pyval list \<Rightarrow> pyval list" where
  "astype_str render missing col = map (astype_cell render missing) col"

definition preprocess_reviews ::
  "(pyval \<Rightarrow> pystr) \<Rightarrow> (pyval \<Rightarrow> pyval) \<Rightarrow> store \<Rightarrow> nat \<Rightarrow> (error + nat) \<times> store" where
  "preprocess_reviews render missing st df =
     (let (df', st1) = df_copy st df
      in if \<not> has_column (st1 ! df') (ustr ''text'') then (Inl ValueError, st1)
         else
           (case get_column (st1 ! df') (ustr ''text'') of
              Inl e \<Rightarrow> (Inl e, st1)
            | Inr col \<Rightarrow>
                (Inr df',
                 st1[df' := assign_series (st1 ! df') (ustr ''clean_text'')
                              (map (\<lambda>v. PyStr (clean_text v))
                                 (astype_str render missing col))])))"

section \<open>analysis\_pipeline.py\<close>

text \<open>
  \<open>_call_llm\<close>: the chat service is the parameter \<open>llm\<close>, from the prompt to the content
  of the first choice (the model, the system message and the temperature are fixed). The
  call can fail, and the content can be \<open>None\<close>, which has no \<open>strip\<close>.
\<close>

definition call_llm :: "(pystr \<Rightarrow> error + pyval) \<Rightarrow> pystr \<Rightarrow> error + pystr" where
  "call_llm llm prompt =
     (case llm prompt of
        Inl e \<Rightarrow> Inl e
      | Inr (PyStr content) \<Rightarrow> Inr (strip content)
      | Inr _ \<Rightarrow> Inl AttributeError)"

subsection \<open>add\_sentiment\<close>

text \<open>One result of the sentiment pipeline, which is the parameter \<open>pipe\<close> below.\<close>

record sentiment_result =
  label :: pystr
  score :: pyfloat

definition map_label :: "pystr \<Rightarrow> pystr" where
  "map_label lab =
     (if contains (ustr ''pos'') lab then ustr ''positive''
      else if contains (ustr ''neg'') lab then ustr ''negative''
      else ustr ''neutral'')"

text \<open>The loop over the results, with the two lists it appends to.\<close>

fun classify :: "sentiment_result list \<Rightarrow> pyval list \<Rightarrow> pyval list \<Rightarrow> pyval list \<times> pyval list" where
  "classify [] labels scores = (labels, scores)"
| "classify (result # rest) labels scores =
     classify rest (labels @ [PyStr (map_label (lower (label result)))])
       (scores @ [PyFloat (score result)])"

definition add_sentiment ::
  "(pyval list \<Rightarrow> error + sentiment_result list) \<Rightarrow> store \<Rightarrow> nat \<Rightarrow> (error + nat) \<times> store" where
  "add_sentiment pipe st df =
     (let (df', st1) = df_copy st df
      in case get_column (st1 ! df') (ustr ''clean_text'') of
           Inl e \<Rightarrow> (Inl e, st1)
         | Inr texts \<Rightarrow>
             (case pipe texts of
                Inl e \<Rightarrow> (Inl e, st1)
              | Inr sentiments \<Rightarrow>
                  (let (labels, scores) = classify sentiments [] []
                   in case assign_list (st1 ! df') (ustr ''sentiment'') labels of
                        Inl e \<Rightarrow> (Inl e, st1)
                      | Inr d1 \<Rightarrow>
                          (case assign_list d1 (ustr ''sentiment_score'') scores of
                             Inl e \<Rightarrow> (Inl e, st1[df' := d1])
                           | Inr d2 \<Rightarrow> (Inr df', st1[df' := d2])))))"

subsection \<open>extract\_themes\<close>

definition unlines :: "pystr list \<Rightarrow> pystr" where
  "unlines ls = concat (map (\<lambda>l. l @ [10]) ls)"

definition themes_prompt :: "pystr \<Rightarrow> pystr" where
  \<open>themes_prompt joined_text =
     unlines
       [[],
        ustr ''You are analyzing customer reviews for a local business.'',
        [],
        ustr ''Reviews:'',
        joined_text,
        [],
        ustr ''1. Identify the main recurring positive themes (e.g., 'friendly staff', 'good ambience').'',
        ustr ''2. Identify the main recurring negative themes (e.g., 'slow service', 'high prices').'',
        [],
        ustr ''Return your answer strictly in JSON with the following structure:'',
        ustr ''{'',
        ustr ''  "positive": ["theme1", "theme2", ...],'',
        ustr ''  "negative": ["theme1", "theme2", ...]'',
        ustr ''}'']\<close>

definition fallback_themes :: "pystr \<Rightarrow> pyval" where
  "fallback_themes raw =
     PyDict [(PyStr (ustr ''positive''), PyList []),
             (PyStr (ustr ''negative''), PyList []),
             (PyStr (ustr ''raw''), PyStr raw)]"

text \<open>
  The \<open>try\<close> block: \<open>json.loads\<close> is the parameter \<open>json_loads\<close>; whatever it raises, and
  the \<open>ValueError\<close> for a value that is not a dict, ends in the \<open>except\<close> branch.
\<close>

definition parse_themes :: "(pystr \<Rightarrow> error + pyval) \<Rightarrow> pystr \<Rightarrow> pyval" where
  "parse_themes json_loads raw =
     (case json_loads raw of
        Inl e \<Rightarrow> fallback_themes raw
      | Inr (PyDict items) \<Rightarrow> PyDict items
      | Inr _ \<Rightarrow> fallback_themes raw)"

definition extract_themes ::
  "(pystr \<Rightarrow> error + pyval) \<Rightarrow> (pystr \<Rightarrow> error + pyval) \<Rightarrow> dataframe \<Rightarrow> int \<Rightarrow> error + pyval" where
  "extract_themes llm json_loads df max_reviews =
     (case get_column (head df max_reviews) (ustr ''clean_text'') of
        Inl e \<Rightarrow> Inl e
      | Inr texts \<Rightarrow>
          (case join [10] texts of
             Inl e \<Rightarrow> Inl e
           | Inr joined_text \<Rightarrow>
               (case call_llm llm (themes_prompt joined_text) of
                  Inl e \<Rightarrow> Inl e
                | Inr raw \<Rightarrow> Inr (parse_themes json_loads raw))))"

subsection \<open>generate\_recommendations\<close>

definition recommendations_text :: "pystr \<Rightarrow> pystr \<Rightarrow> pystr \<Rightarrow> pystr \<Rightarrow> pystr" where
  "recommendations_text total_reviews sentiment_counts positive negative =
     unlines
       [[],
        ustr ''You are an expert operations consultant.'',
        [],
        ustr ''A local business has '' @ total_reviews @ ustr '' reviews on Google Maps.'',
        [],
        ustr ''Sentiment distribution:'',
        sentiment_counts,
        [],
        ustr ''Positive themes:'',
        positive,
        [],
        ustr ''Negative themes:'',
        negative,
        [],
        ustr ''Based on this information:'',
        ustr ''- Suggest 5'' @ [8211] @ ustr ''10 highly actionable operational improvements.'',
        ustr ''- Be specific (e.g., 'add one more staff member during evening peak hours', not just 'improve service').'',
        ustr ''- Group them under short headings if possible.'',
        [],
        ustr ''Respond in bullet points.'']"

text \<open>The f-string: the two \<open>themes.get\<close> calls are evaluated in order while it is built.\<close>

definition recommendations_prompt ::
  "(pyval \<Rightarrow> pystr) \<Rightarrow> nat \<Rightarrow> pyval \<Rightarrow> pyval \<Rightarrow> error + pystr" where
  "recommendations_prompt render total_reviews sentiment_counts themes =
     (case py_get themes (PyStr (ustr ''positive'')) (PyList []) of
        Inl e \<Rightarrow> Inl e
      | Inr positive \<Rightarrow>
          (case py_get themes (PyStr (ustr ''negative'')) (PyList []) of
             Inl e \<Rightarrow> Inl e
           | Inr negative \<Rightarrow>
               Inr (recommendations_text (str_int (int total_reviews))
                      (py_str render sentiment_counts)
                      (py_str render positive) (py_str render negative))))"

definition generate_recommendations ::
  "(pystr \<Rightarrow> error + pyval) \<Rightarrow> (pyval \<Rightarrow> pystr) \<Rightarrow> dataframe \<Rightarrow> pyval \<Rightarrow> error + pystr" where
  "generate_recommendations llm render df themes =
     (case get_column df (ustr ''sentiment'') of
        Inl e \<Rightarrow> Inl e
      | Inr col \<Rightarrow>
          (case recommendations_prompt render (nrows df) (to_dict (value_counts col)) themes of
             Inl e \<Rightarrow> Inl e
           | Inr prompt \<Rightarrow> call_llm llm prompt))"

subsection \<open>compute\_basic\_stats\<close>

text \<open>
  The result dict, one field per key. \<open>series.mean()\<close> is the parameter \<open>mean\<close> (it is
  float arithmetic, and refuses a column that is not numeric).
\<close>

record stats =
  total_reviews :: nat
  avg_rating :: pyval
  sentiment_counts :: pyval

definition compute_basic_stats ::
  "(pyval list \<Rightarrow> error + pyfloat) \<Rightarrow> dataframe \<Rightarrow> error + stats" where
  "compute_basic_stats mean df =
     (case (if has_column df (ustr ''rating'')
            then (case get_column df (ustr ''rating'') of
                    Inl e \<Rightarrow> Inl e
                  | Inr col \<Rightarrow> (case mean col of Inl e \<Rightarrow> Inl e | Inr m \<Rightarrow> Inr (PyFloat m)))
            else Inr PyNone) of
        Inl e \<Rightarrow> Inl e
      | Inr avg \<Rightarrow>
          (case get_column df (ustr ''sentiment'') of
             Inl e \<Rightarrow> Inl e
           | Inr col \<Rightarrow>
               Inr \<lparr>total_reviews = nrows df, avg_rating = avg,
                    sentiment_counts = to_dict (value_counts col)\<rparr>))"

section \<open>data\_fetcher.py\<close>

definition SERPAPI_ENDPOINT :: pystr where
  "SERPAPI_ENDPOINT = ustr ''https://serpapi.com/search.json''"

definition DEFAULT_HL :: pystr where
  "DEFAULT_HL = ustr ''en''"

text \<open>
  The network: a request gets a response, or the call fails. \<open>json_body\<close> is what
  \<open>r.json()\<close> decodes, \<open>None\<close> when the body is not JSON. Every request made is appended to
  the log that the fetcher takes and returns.
\<close>

record request =
  url :: pystr
  params :: "(pystr \<times> pystr) list"

record response =
  status_code :: nat
  json_body :: "pyval option"

record review_row =
  row_author :: pyval
  row_rating :: pyval
  row_date :: pyval
  row_text :: pyval

text \<open>The loop over the reviews, with the list of rows it appends to.\<close>

fun collect_rows :: "pyval list \<Rightarrow> review_row list \<Rightarrow> error + review_row list" where
  "collect_rows [] rows = Inr rows"
| "collect_rows (review # rest) rows =
     (case py_get review (PyStr (ustr ''user'')) (PyStr []) of
        Inl e \<Rightarrow> Inl e
      | Inr author \<Rightarrow>
     (case py_get review (PyStr (ustr ''rating'')) PyNone of
        Inl e \<Rightarrow> Inl e
      | Inr rating \<Rightarrow>
     (case py_get review (PyStr (ustr ''date'')) (PyStr []) of
        Inl e \<Rightarrow> Inl e
      | Inr date \<Rightarrow>
     (case py_get review (PyStr (ustr ''snippet'')) (PyStr []) of
        Inl e \<Rightarrow> Inl e
      | Inr snippet \<Rightarrow>
     (case (if truthy snippet then Inr snippet
            else py_get review (PyStr (ustr ''review'')) (PyStr [])) of
        Inl e \<Rightarrow> Inl e
      | Inr txt \<Rightarrow>
          collect_rows rest
            (rows @ [\<lparr>row_author = author, row_rating = rating, row_date = date,
                       row_text = txt\<rparr>]))))))"

text \<open>
  \<open>pd.DataFrame(rows)\<close> for rows that all have the same four keys. pandas gives each
  column a type that fits its cells, and changes cells for it (beside a missing value the
  integer 5 becomes the float 5.0, and \<open>None\<close> becomes NaN). That is the parameter \<open>infer\<close>.
\<close>

definition frame_of_rows :: "(pyval list \<Rightarrow> pyval list) \<Rightarrow> review_row list \<Rightarrow> dataframe" where
  "frame_of_rows infer rows =
     \<lparr>nrows = length rows,
      columns = [(ustr ''author'', infer (map row_author rows)),
                 (ustr ''rating'', infer (map row_rating rows)),
                 (ustr ''date'', infer (map row_date rows)),
                 (ustr ''text'', infer (map row_text rows))]\<rparr>"

text \<open>\<open>pd.DataFrame(columns=["author", "rating", "date", "text"])\<close>\<close>

definition empty_frame :: dataframe where
  "empty_frame =
     \<lparr>nrows = 0,
      columns = [(ustr ''author'', []), (ustr ''rating'', []), (ustr ''date'', []),
                 (ustr ''text'', [])]\<rparr>"

text \<open>The one request of the fetcher: the endpoint and the \<open>params\<close> dict.\<close>

definition reviews_request :: "pystr \<Rightarrow> pystr \<Rightarrow> pystr \<Rightarrow> request" where
  "reviews_request place_id hl api_key =
     \<lparr>url = SERPAPI_ENDPOINT,
      params = [(ustr ''engine'', ustr ''google_maps_reviews''), (ustr ''place_id'', place_id),
                (ustr ''hl'', hl), (ustr ''api_key'', api_key)]\<rparr>"

definition fetch_google_maps_reviews ::
  "pystr \<Rightarrow> (request \<Rightarrow> error + response) \<Rightarrow> (pyval list \<Rightarrow> pyval list) \<Rightarrow> request list
     \<Rightarrow> pystr \<Rightarrow> pystr option \<Rightarrow> pystr \<Rightarrow> (error + dataframe) \<times> request list" where
  "fetch_google_maps_reviews SERPAPI_API_KEY net infer log place_id api_key hl =
     (let api_key = (case api_key of None \<Rightarrow> SERPAPI_API_KEY | Some k \<Rightarrow> k)
      in if api_key = [] then (Inl ValueError, log)
         else
           (let req = reviews_request place_id hl api_key;
                log' = log @ [req]
            in case net req of
                 Inl e \<Rightarrow> (Inl e, log')
               | Inr r \<Rightarrow>
                   if 400 \<le> status_code r \<and> status_code r < 600
                   then (Inl (HTTPError (status_code r)), log')
                   else
                     (case json_body r of
                        None \<Rightarrow> (Inl JSONDecodeError, log')
                      | Some data \<Rightarrow>
                          (case py_get data (PyStr (ustr ''reviews'')) (PyList []) of
                             Inl e \<Rightarrow> (Inl e, log')
                           | Inr reviews \<Rightarrow>
                               if \<not> truthy reviews then (Inr empty_frame, log')
                               else
                                 (case py_iter reviews of
                                    Inl e \<Rightarrow> (Inl e, log')
                                  | Inr revs \<Rightarrow>
                                      (case collect_rows revs [] of
                                         Inl e \<Rightarrow> (Inl e, log')
                                       | Inr rows \<Rightarrow> (Inr (frame_of_rows infer rows), log')))))))"

section \<open>Example data\<close>

text \<open>
  Two small collections, and stand-ins for the outside services with a fixed behaviour,
  on which the program is run in the examples below.
\<close>

definition raw_frame :: dataframe where
  "raw_frame =
     \<lparr>nrows = 3,
      columns = [(ustr ''text'', [PyStr (ustr ''Great FOOD!''), PyInt 5, PyNone])]\<rparr>"

definition cleaned_frame :: dataframe where
  "cleaned_frame =
     \<lparr>nrows = 3,
      columns =
        [(ustr ''text'',
          [PyStr (ustr ''Great FOOD!''), PyStr (ustr ''Too slow''), PyStr (ustr ''ok'')]),
         (ustr ''clean_text'',
          [PyStr (ustr ''great food!''), PyStr (ustr ''too slow''), PyStr (ustr ''ok'')])]\<rparr>"

definition three_results :: "pyval list \<Rightarrow> error + sentiment_result list" where
  "three_results texts =
     Inr [\<lparr>label = ustr ''POSITIVE'', score = Finite 1 0\<rparr>,
          \<lparr>label = ustr ''Negative'', score = Finite 1 (- 1)\<rparr>,
          \<lparr>label = ustr ''LABEL_1'', score = Finite 3 (- 2)\<rparr>]"

definition no_render :: "pyval \<Rightarrow> pystr" where
  "no_render v = []"

definition keep_missing :: "pyval \<Rightarrow> pyval" where
  "keep_missing v = v"

definition as_given :: "pyval list \<Rightarrow> pyval list" where
  "as_given col = col"

definition reply_with :: "pystr \<Rightarrow> pystr \<Rightarrow> error + pyval" where
  "reply_with content prompt = Inr (PyStr content)"

definition not_json :: "pystr \<Rightarrow> error + pyval" where
  "not_json raw = Inl JSONDecodeError"

definition respond_with :: "response \<Rightarrow> request \<Rightarrow> error + response" where
  "respond_with r req = Inr r"

definition no_mean :: "pyval list \<Rightarrow> error + pyfloat" where
  "no_mean col = Inl TypeError"

section \<open>Evaluation on concrete texts\<close>

lemmas char_defs =
  ustr_def is_space_def is_upper_def is_lower_def is_digit_def is_punct_def allowed_def
  lower_char_def

lemmas clean_defs =
  clean_text_def clean_str_def strip_def lower_def replace_special_def char_defs

section \<open>Frames and the store\<close>

lemma classify_eq:
  "classify rs labels scores =
     (labels @ map (\<lambda>r. PyStr (map_label (lower (label r)))) rs,
      scores @ map (\<lambda>r. PyFloat (score r)) rs)"
  by (induction rs arbitrary: labels scores) simp_all

lemma get_column_assign_series:
  "get_column (assign_series d k v) k' = (if k' = k then Inr v else get_column d k')"
  by (simp add: get_column_def assign_series_def update_conv')

lemma nrows_assign_series: "nrows (assign_series d k v) = nrows d"
  by (simp add: assign_series_def)

lemma has_column_assign_series:
  "has_column (assign_series d k v) k' = (k' = k \<or> has_column d k')"
  by (auto simp: has_column_def assign_series_def dom_update)

lemma has_column_map_of: "has_column d k = (map_of (columns d) k \<noteq> None)"
  by (simp add: has_column_def map_of_eq_None_iff)

lemma preprocess_reviews_cases:
  "preprocess_reviews render missing st df =
     (case get_column (st ! df) (ustr ''text'') of
        Inl e \<Rightarrow> (Inl ValueError, st @ [st ! df])
      | Inr col \<Rightarrow>
          (Inr (length st),
           st @ [assign_series (st ! df) (ustr ''clean_text'')
                   (map (\<lambda>v. PyStr (clean_text (astype_cell render missing v))) col)]))"
  by (auto simp: preprocess_reviews_def df_copy_def has_column_map_of get_column_def astype_str_def
      comp_def split: option.splits)

lemma has_column_grow: "has_column (grow d n) k = has_column d k"
  by (force simp: has_column_def grow_def)

lemma assign_list_fits:
  "length vals = nrows df \<Longrightarrow> assign_list df name vals = Inr (assign_series df name vals)"
  by (auto simp: assign_list_def)

lemma has_column_assign_list:
  "assign_list df name vals = Inr d \<Longrightarrow> has_column d k = (k = name \<or> has_column df k)"
  by (auto simp: assign_list_def has_column_assign_series has_column_grow split: if_splits)

lemma add_sentiment_cases:
  assumes "add_sentiment pipe st df = (r, st')"
  shows "\<exists>d. st' = st @ [d] \<and>
           (\<forall>df'. r = Inr df' \<longrightarrow>
              df' = length st \<and> has_column d (ustr ''sentiment'')
              \<and> has_column d (ustr ''sentiment_score''))"
proof (cases "get_column (st ! df) (ustr ''clean_text'')")
  case (Inl e)
  with assms show ?thesis by (auto simp: add_sentiment_def df_copy_def)
next
  case texts: (Inr texts)
  show ?thesis
  proof (cases "pipe texts")
    case (Inl e)
    with assms texts show ?thesis by (auto simp: add_sentiment_def df_copy_def)
  next
    case results: (Inr sentiments)
    let ?labels = "map (\<lambda>r. PyStr (map_label (lower (label r)))) sentiments"
    let ?scores = "map (\<lambda>r. PyFloat (score r)) sentiments"
    show ?thesis
    proof (cases "assign_list (st ! df) (ustr ''sentiment'') ?labels")
      case (Inl e)
      with assms texts results show ?thesis
        by (auto simp: add_sentiment_def df_copy_def classify_eq)
    next
      case d1: (Inr d1)
      show ?thesis
      proof (cases "assign_list d1 (ustr ''sentiment_score'') ?scores")
        case (Inl e)
        with assms texts results d1 show ?thesis
          by (auto simp: add_sentiment_def df_copy_def classify_eq)
      next
        case d2: (Inr d2)
        from has_column_assign_list [OF d1] has_column_assign_list [OF d2]
        have "has_column d2 (ustr ''sentiment'')" "has_column d2 (ustr ''sentiment_score'')"
          by simp_all
        with assms texts results d1 d2 show ?thesis
          by (auto simp: add_sentiment_def df_copy_def classify_eq)
      qed
    qed
  qed
qed

lemma add_sentiment_store:
  "\<exists>d. snd (add_sentiment pipe st df) = st @ [d]"
  using add_sentiment_cases [of pipe st df "fst (add_sentiment pipe st df)"
      "snd (add_sentiment pipe st df)"]
  by auto

lemma add_sentiment_result:
  assumes "fst (add_sentiment pipe st df) = Inr df'"
  shows "df' = length st \<and> has_column (snd (add_sentiment pipe st df) ! df') (ustr ''sentiment'')
       \<and> has_column (snd (add_sentiment pipe st df) ! df') (ustr ''sentiment_score'')"
proof -
  from assms have "add_sentiment pipe st df = (Inr df', snd (add_sentiment pipe st df))"
    by (simp add: prod_eq_iff)
  from add_sentiment_cases [OF this]
  obtain d where "snd (add_sentiment pipe st df) = st @ [d]" "df' = length st"
    "has_column d (ustr ''sentiment'')" "has_column d (ustr ''sentiment_score'')"
    by auto
  then show ?thesis by simp
qed

section \<open>Cleaning a number\<close>

lemma digits_nonempty: "digits n \<noteq> []"
  by (subst digits.simps) simp

lemma digits_are_digits: "c \<in> set (digits n) \<Longrightarrow> is_digit c"
proof (induction n arbitrary: c rule: digits.induct)
  case (1 n)
  show ?case
  proof (cases "n < 10")
    case True
    with "1.prems" show ?thesis
      by (subst (asm) digits.simps) (simp add: is_digit_def)
  next
    case False
    with "1.prems" have "c \<in> set (digits (n div 10)) \<or> c = 48 + n mod 10"
      by (subst (asm) digits.simps) auto
    then show ?thesis
    proof
      assume "c \<in> set (digits (n div 10))"
      with False "1.IH" show ?thesis by simp
    next
      assume "c = 48 + n mod 10"
      moreover have "n mod 10 < 10" by simp
      ultimately show ?thesis unfolding is_digit_def by linarith
    qed
  qed
qed

lemma no_url_at_other: "c \<noteq> 104 \<Longrightarrow> c \<noteq> 119 \<Longrightarrow> \<not> url_at (c # cs)"
  by (cases "c # cs" rule: url_at.cases) (auto simp: ustr_def)

lemma remove_urls_plain:
  "\<forall>c \<in> set s. c \<noteq> 104 \<and> c \<noteq> 119 \<Longrightarrow> remove_urls s = s"
  by (induction s) (simp_all add: no_url_at_other)

lemma collapse_spaces_plain: "\<forall>c \<in> set s. \<not> is_space c \<Longrightarrow> collapse_spaces s = s"
  by (induction s) simp_all

lemma dropWhile_none: "\<forall>c \<in> set s. \<not> P c \<Longrightarrow> dropWhile P s = s"
  by (cases s) simp_all

lemma strip_plain: "\<forall>c \<in> set s. \<not> is_space c \<Longrightarrow> strip s = s"
  by (simp add: strip_def dropWhile_none)

lemma digit_facts:
  "is_digit c \<Longrightarrow> c \<noteq> 104 \<and> c \<noteq> 119 \<and> \<not> is_space c \<and> \<not> is_upper c \<and> allowed c"
  by (auto simp: is_digit_def is_space_def is_upper_def allowed_def)

lemma clean_str_digits:
  assumes "\<forall>c \<in> set s. is_digit c"
  shows "clean_str s = s" and "clean_str (45 # s) = s"
proof -
  from assms have plain: "\<forall>c \<in> set s. c \<noteq> 104 \<and> c \<noteq> 119"
    and nosp: "\<forall>c \<in> set s. \<not> is_space c"
    and noup: "\<forall>c \<in> set s. \<not> is_upper c"
    and allow: "\<forall>c \<in> set s. allowed c"
    using digit_facts by blast+
  have rs: "replace_special s = s"
    using allow by (simp add: replace_special_def map_idI)
  have lw: "lower s = s"
    using noup by (simp add: lower_def lower_char_def map_idI)
  show "clean_str s = s"
    using plain nosp by (simp add: clean_str_def remove_urls_plain rs lw collapse_spaces_plain strip_plain)
  have "remove_urls (45 # s) = 45 # s"
    using plain by (intro remove_urls_plain) simp
  moreover have "replace_special (45 # s) = 32 # s"
    using rs by (simp add: replace_special_def allowed_def is_upper_def is_lower_def is_digit_def
        is_space_def is_punct_def)
  moreover have "lower (32 # s) = 32 # s"
    using lw by (simp add: lower_def lower_char_def is_upper_def)
  moreover have "collapse_spaces (32 # s) = 32 # s"
    using nosp by (simp add: is_space_def dropWhile_none collapse_spaces_plain)
  moreover have "strip (32 # s) = s"
    using nosp by (simp add: strip_def dropWhile_none) (simp add: is_space_def)
  ultimately show "clean_str (45 # s) = s"
    by (simp add: clean_str_def)
qed

lemma clean_str_str_int: "clean_str (str_int n) = digits (nat \<bar>n\<bar>)"
  using clean_str_digits [of "digits (nat \<bar>n\<bar>)"] digits_are_digits
  by (auto simp: str_int_def)

section \<open>Examples of the outside services\<close>

lemma join_example:
  "join [10] [PyStr (ustr ''great food!''), PyStr (ustr ''too slow''), PyStr (ustr ''ok'')] =
     Inr (ustr ''great food!'' @ [10] @ ustr ''too slow'' @ [10] @ ustr ''ok'')"
  by simp

lemma extract_themes_example:
  "extract_themes (reply_with (ustr '' Sorry, no themes. '')) not_json cleaned_frame 50 =
     Inr (fallback_themes (ustr ''Sorry, no themes.''))"
  by (simp add: extract_themes_def get_column_def head_def head_count_def cleaned_frame_def
      call_llm_def reply_with_def parse_themes_def not_json_def strip_def char_defs)

lemma extract_themes_dict:
  "extract_themes llm json_loads df n = Inr themes \<Longrightarrow> \<exists>items. themes = PyDict items"
  by (auto simp: extract_themes_def parse_themes_def fallback_themes_def
      split: sum.splits pyval.splits)

section \<open>The sentiment labels\<close>

text \<open>
  Claim C1: every record that \<open>add_sentiment\<close> classifies gets the sentiment
  \<open>"positive"\<close> when its lowercased raw label contains \<open>"pos"\<close>, else \<open>"negative"\<close> when it
  contains \<open>"neg"\<close>, else \<open>"neutral"\<close>. When the pipeline returns one result per row, the
  function returns a new frame whose \<open>sentiment\<close> column is that mapping of the results,
  in order.
\<close>

theorem add_sentiment_labels:
  assumes valid: "df < length st"
    and texts: "get_column (st ! df) (ustr ''clean_text'') = Inr texts"
    and results: "pipe texts = Inr sentiments"
    and len: "length sentiments = nrows (st ! df)"
  shows "\<exists>df' st'. add_sentiment pipe st df = (Inr df', st') \<and>
           get_column (st' ! df') (ustr ''sentiment'') =
             Inr (map (\<lambda>r. PyStr
                         (if contains (ustr ''pos'') (lower (label r)) then ustr ''positive''
                          else if contains (ustr ''neg'') (lower (label r)) then ustr ''negative''
                          else ustr ''neutral'')) sentiments)"
proof -
  let ?labels = "map (\<lambda>r. PyStr (map_label (lower (label r)))) sentiments"
  let ?scores = "map (\<lambda>r. PyFloat (score r)) sentiments"
  let ?d1 = "assign_series (st ! df) (ustr ''sentiment'') ?labels"
  let ?d2 = "assign_series ?d1 (ustr ''sentiment_score'') ?scores"
  have run: "add_sentiment pipe st df = (Inr (length st), st @ [?d2])"
    using texts results len
    by (simp add: add_sentiment_def df_copy_def classify_eq assign_list_fits nrows_assign_series)
  have "ustr ''sentiment'' \<noteq> ustr ''sentiment_score''"
    by (simp add: ustr_def)
  then have "get_column ?d2 (ustr ''sentiment'') = Inr ?labels"
    by (simp add: get_column_assign_series)
  then show ?thesis
    using run by (simp add: map_label_def)
qed

text \<open>On three reviews with the labels \<open>POSITIVE\<close>, \<open>Negative\<close> and \<open>LABEL_1\<close>.\<close>

theorem add_sentiment_labels_witness:
  "0 < length [cleaned_frame] \<and>
   get_column ([cleaned_frame] ! 0) (ustr ''clean_text'') =
     Inr [PyStr (ustr ''great food!''), PyStr (ustr ''too slow''), PyStr (ustr ''ok'')] \<and>
   three_results [PyStr (ustr ''great food!''), PyStr (ustr ''too slow''), PyStr (ustr ''ok'')] =
     Inr [\<lparr>label = ustr ''POSITIVE'', score = Finite 1 0\<rparr>,
          \<lparr>label = ustr ''Negative'', score = Finite 1 (- 1)\<rparr>,
          \<lparr>label = ustr ''LABEL_1'', score = Finite 3 (- 2)\<rparr>] \<and>
   (\<exists>df' st'. add_sentiment three_results [cleaned_frame] 0 = (Inr df', st') \<and>
      get_column (st' ! df') (ustr ''sentiment'') =
        Inr [PyStr (ustr ''positive''), PyStr (ustr ''negative''), PyStr (ustr ''neutral'')])"
proof -
  have h1: "0 < length [cleaned_frame]" by simp
  have h2: "get_column ([cleaned_frame] ! 0) (ustr ''clean_text'') =
     Inr [PyStr (ustr ''great food!''), PyStr (ustr ''too slow''), PyStr (ustr ''ok'')]"
    by (simp add: get_column_def cleaned_frame_def ustr_def)
  have h3: "three_results [PyStr (ustr ''great food!''), PyStr (ustr ''too slow''), PyStr (ustr ''ok'')] =
     Inr [\<lparr>label = ustr ''POSITIVE'', score = Finite 1 0\<rparr>,
          \<lparr>label = ustr ''Negative'', score = Finite 1 (- 1)\<rparr>,
          \<lparr>label = ustr ''LABEL_1'', score = Finite 3 (- 2)\<rparr>]"
    by (simp add: three_results_def)
  have h4: "length [\<lparr>label = ustr ''POSITIVE'', score = Finite 1 0\<rparr>,
          \<lparr>label = ustr ''Negative'', score = Finite 1 (- 1)\<rparr>,
          \<lparr>label = ustr ''LABEL_1'', score = Finite 3 (- 2)\<rparr>] = nrows ([cleaned_frame] ! 0)"
    by (simp add: cleaned_frame_def)
  have "\<exists>df' st'. add_sentiment three_results [cleaned_frame] 0 = (Inr df', st') \<and>
      get_column (st' ! df') (ustr ''sentiment'') =
        Inr [PyStr (ustr ''positive''), PyStr (ustr ''negative''), PyStr (ustr ''neutral'')]"
    using add_sentiment_labels [where df = 0 and st = "[cleaned_frame]" and pipe = three_results,
        OF h1 h2 h3 h4]
    by (simp add: lower_def char_defs)
  with h1 h2 h3 show ?thesis by blast
qed

section \<open>The fallback of extract\_themes\<close>

text \<open>
  Claim C2: when \<open>json.loads\<close> fails on the text that the LLM call returned, or its value
  is not a dict, \<open>extract_themes\<close> returns the dict with an empty \<open>positive\<close> list, an
  empty \<open>negative\<close> list and that text under \<open>raw\<close>; it does not raise.
\<close>

theorem extract_themes_fallback:
  assumes "get_column (head df max_reviews) (ustr ''clean_text'') = Inr texts"
    and "join [10] texts = Inr joined_text"
    and "call_llm llm (themes_prompt joined_text) = Inr raw"
    and "(\<exists>e. json_loads raw = Inl e) \<or> (\<exists>v. json_loads raw = Inr v \<and> (\<forall>items. v \<noteq> PyDict items))"
  shows "extract_themes llm json_loads df max_reviews =
           Inr (PyDict [(PyStr (ustr ''positive''), PyList []),
                        (PyStr (ustr ''negative''), PyList []),
                        (PyStr (ustr ''raw''), PyStr raw)])"
proof -
  from assms(4) have "parse_themes json_loads raw = fallback_themes raw"
    by (auto simp: parse_themes_def split: sum.splits pyval.splits)
  with assms(1-3) show ?thesis
    by (simp add: extract_themes_def fallback_themes_def)
qed

text \<open>On a reply that is not JSON.\<close>

theorem extract_themes_fallback_witness:
  "get_column (head cleaned_frame 50) (ustr ''clean_text'') =
     Inr [PyStr (ustr ''great food!''), PyStr (ustr ''too slow''), PyStr (ustr ''ok'')] \<and>
   join [10] [PyStr (ustr ''great food!''), PyStr (ustr ''too slow''), PyStr (ustr ''ok'')] =
     Inr (ustr ''great food!'' @ [10] @ ustr ''too slow'' @ [10] @ ustr ''ok'') \<and>
   call_llm (reply_with (ustr '' Sorry, no themes. ''))
     (themes_prompt (ustr ''great food!'' @ [10] @ ustr ''too slow'' @ [10] @ ustr ''ok'')) =
     Inr (ustr ''Sorry, no themes.'') \<and>
   not_json (ustr ''Sorry, no themes.'') = Inl JSONDecodeError \<and>
   extract_themes (reply_with (ustr '' Sorry, no themes. '')) not_json cleaned_frame 50 =
     Inr (PyDict [(PyStr (ustr ''positive''), PyList []),
                  (PyStr (ustr ''negative''), PyList []),
                  (PyStr (ustr ''raw''), PyStr (ustr ''Sorry, no themes.''))])"
proof -
  have h1: "get_column (head cleaned_frame 50) (ustr ''clean_text'') =
     Inr [PyStr (ustr ''great food!''), PyStr (ustr ''too slow''), PyStr (ustr ''ok'')]"
    by (simp add: get_column_def head_def head_count_def cleaned_frame_def ustr_def)
  have h3: "call_llm (reply_with (ustr '' Sorry, no themes. ''))
     (themes_prompt (ustr ''great food!'' @ [10] @ ustr ''too slow'' @ [10] @ ustr ''ok'')) =
     Inr (ustr ''Sorry, no themes.'')"
    by (simp add: call_llm_def reply_with_def strip_def char_defs)
  have h4: "not_json (ustr ''Sorry, no themes.'') = Inl JSONDecodeError"
    by (simp add: not_json_def)
  then have h4': "(\<exists>e. not_json (ustr ''Sorry, no themes.'') = Inl e) \<or>
     (\<exists>v. not_json (ustr ''Sorry, no themes.'') = Inr v \<and> (\<forall>items. v \<noteq> PyDict items))"
    by simp
  show ?thesis
    using h1 join_example h3 h4 extract_themes_fallback [where df = cleaned_frame and max_reviews = 50
        and llm = "reply_with (ustr '' Sorry, no themes. '')" and json_loads = not_json,
        OF h1 join_example h3 h4']
    by simp
qed

section \<open>Cleaning a text twice\<close>

subsection \<open>Where a URL can start\<close>

lemma url_at_long: "url_at s \<Longrightarrow> 5 \<le> length s"
  by (cases s rule: url_at.cases) simp_all

lemma url_at_append: "url_at y \<Longrightarrow> url_at (y @ w)"
  by (cases y rule: url_at.cases) simp_all

lemma url_at_context: "5 \<le> length p \<Longrightarrow> url_at (p @ x) = url_at (p @ y)"
  by (cases p rule: url_at.cases) simp_all

lemma small_index: "i < (5::nat) \<Longrightarrow> i = 0 \<or> i = 1 \<or> i = 2 \<or> i = 3 \<or> i = 4"
  by arith

lemma letters_not_space:
  "\<not> is_space 104" "\<not> is_space 116" "\<not> is_space 112" "\<not> is_space 119" "\<not> is_space 46"
  by (simp_all add: is_space_def)

lemma url_at_nonspace:
  assumes "url_at s" and "i < 5"
  shows "\<not> is_space (s ! i)"
proof (cases s rule: url_at.cases)
  case (1 a b c d e rest)
  with assms(1) have e: "\<not> is_space e"
    and "a = 104 \<and> b = 116 \<and> c = 116 \<and> d = 112 \<or> a = 119 \<and> b = 119 \<and> c = 119 \<and> d = 46"
    by (simp_all add: ustr_def)
  then have abcd: "\<not> is_space a" "\<not> is_space b" "\<not> is_space c" "\<not> is_space d"
    using letters_not_space by blast+
  from small_index [OF assms(2)] show ?thesis
    by (elim disjE) (simp_all add: 1 e abcd)
qed (use assms(1) in simp_all)

lemma url_at_before_space:
  assumes "url_at (p @ r)" and "r = [] \<or> is_space (hd r)"
  shows "5 \<le> length p"
proof (rule ccontr)
  assume "\<not> 5 \<le> length p"
  then have short: "length p < 5" by simp
  show False
  proof (cases r)
    case Nil
    with assms(1) url_at_long [of p] short show False by simp
  next
    case (Cons sp r')
    with assms(2) have "is_space ((p @ r) ! length p)" by simp
    with url_at_nonspace [OF assms(1) short] show False by simp
  qed
qed

lemma url_at_not_space: "is_space c \<Longrightarrow> \<not> url_at (c # cs)"
  using url_at_nonspace [of "c # cs" 0] by auto

subsection \<open>After remove\_urls no URL is left\<close>

lemma remove_urls_space_first:
  "x = [] \<or> is_space (hd x) \<Longrightarrow> remove_urls x = [] \<or> is_space (hd (remove_urls x))"
  by (cases x) (auto simp: url_at_not_space)

lemma remove_urls_context: "url_at (p @ remove_urls s) \<Longrightarrow> url_at (p @ s)"
proof (induction s arbitrary: p rule: remove_urls.induct)
  case 1
  then show ?case by simp
next
  case (2 c cs)
  show ?case
  proof (cases "url_at (c # cs)")
    case True
    let ?r = "remove_urls (dropWhile (\<lambda>x. \<not> is_space x) cs)"
    from True "2.prems" have at: "url_at (p @ ?r)" by simp
    have "?r = [] \<or> is_space (hd ?r)"
      by (rule remove_urls_space_first) (use hd_dropWhile [of "\<lambda>x. \<not> is_space x" cs] in auto)
    with at have "5 \<le> length p" by (rule url_at_before_space)
    with at show ?thesis using url_at_context by blast
  next
    case False
    with "2.prems" have "url_at ((p @ [c]) @ remove_urls cs)" by simp
    with False "2.IH"(2) have "url_at ((p @ [c]) @ cs)" by blast
    then show ?thesis by simp
  qed
qed

lemma remove_urls_no_url: "\<not> has_url (remove_urls s)"
proof (induction s rule: remove_urls.induct)
  case 1
  then show ?case by simp
next
  case (2 c cs)
  show ?case
  proof (cases "url_at (c # cs)")
    case True
    with "2.IH"(1) show ?thesis by simp
  next
    case False
    have "\<not> url_at (c # remove_urls cs)"
      using remove_urls_context [of "[c]" cs] False by auto
    with False "2.IH"(2) show ?thesis by simp
  qed
qed

lemma remove_urls_fixed: "\<not> has_url t \<Longrightarrow> remove_urls t = t"
  by (induction t) simp_all

lemma length_remove_urls: "length (remove_urls s) \<le> length s"
proof (induction s rule: remove_urls.induct)
  case 1
  then show ?case by simp
next
  case (2 c cs)
  have "length (dropWhile (\<lambda>x. \<not> is_space x) cs) \<le> length cs"
    by (rule length_dropWhile_le)
  with 2 show ?case by (cases "url_at (c # cs)") auto
qed

lemma remove_urls_shorter: "has_url s \<Longrightarrow> length (remove_urls s) < length s"
proof (induction s rule: remove_urls.induct)
  case 1
  then show ?case by simp
next
  case (2 c cs)
  show ?case
  proof (cases "url_at (c # cs)")
    case True
    have "length (remove_urls (dropWhile (\<lambda>x. \<not> is_space x) cs))
            \<le> length (dropWhile (\<lambda>x. \<not> is_space x) cs)"
      by (rule length_remove_urls)
    also have "\<dots> \<le> length cs" by (rule length_dropWhile_le)
    finally show ?thesis using True by simp
  next
    case False
    with "2.prems" "2.IH"(2) show ?thesis by simp
  qed
qed

lemma set_remove_urls: "set (remove_urls s) \<subseteq> set s"
proof (induction s rule: remove_urls.induct)
  case 1
  then show ?case by simp
next
  case (2 c cs)
  have "set (dropWhile (\<lambda>x. \<not> is_space x) cs) \<subseteq> set cs"
    by (auto dest: set_dropWhileD)
  with 2 show ?case by (cases "url_at (c # cs)") auto
qed

subsection \<open>The later steps bring no URL\<close>

lemma has_url_dropWhile: "has_url (dropWhile P x) \<Longrightarrow> has_url x"
  by (induction x) (auto split: if_splits)

lemma has_url_append: "has_url y \<Longrightarrow> has_url (y @ w)"
  by (induction y) (auto dest: url_at_append [where w = w])

lemma rstrip_prefix: "rev (dropWhile P (rev x)) @ rev (takeWhile P (rev x)) = x"
proof -
  have "rev (takeWhile P (rev x) @ dropWhile P (rev x)) = x" by simp
  then show ?thesis by (simp only: rev_append)
qed

lemma has_url_strip: "has_url (strip x) \<Longrightarrow> has_url x"
proof -
  assume "has_url (strip x)"
  then have "has_url (rev (dropWhile is_space (rev (dropWhile is_space x)))
               @ rev (takeWhile is_space (rev (dropWhile is_space x))))"
    unfolding strip_def by (rule has_url_append)
  then have "has_url (dropWhile is_space x)"
    by (simp only: rstrip_prefix)
  then show ?thesis by (rule has_url_dropWhile)
qed

lemma replaced_keeps:
  "\<not> is_space (if allowed c then c else 32) \<Longrightarrow> (if allowed c then c else 32) = c"
  by (simp add: is_space_def split: if_splits)

lemma url_at_replace_special: "url_at (replace_special s) \<Longrightarrow> url_at s"
proof (cases s rule: url_at.cases)
  case (1 a b c d e rest)
  assume at: "url_at (replace_special s)"
  define f where "f = (\<lambda>c. if allowed c then c else (32::nat))"
  have keep: "f x = x" if "\<not> is_space (f x)" for x
    using that unfolding f_def by (rule replaced_keeps)
  have m: "replace_special s = f a # f b # f c # f d # f e # map f rest"
    by (simp add: 1 replace_special_def f_def)
  have "\<not> is_space (f a)" using url_at_nonspace [OF at, of 0] by (simp add: m)
  moreover have "\<not> is_space (f b)" using url_at_nonspace [OF at, of 1] by (simp add: m)
  moreover have "\<not> is_space (f c)" using url_at_nonspace [OF at, of 2] by (simp add: m)
  moreover have "\<not> is_space (f d)" using url_at_nonspace [OF at, of 3] by (simp add: m)
  moreover have "\<not> is_space (f e)" using url_at_nonspace [OF at, of 4] by (simp add: m)
  ultimately have "f a = a" "f b = b" "f c = c" "f d = d" "f e = e"
    using keep by blast+
  with m have "replace_special s = a # b # c # d # e # map f rest" by simp
  with at show ?thesis by (simp add: 1)
qed (simp_all add: replace_special_def)

lemma has_url_replace_special: "has_url (replace_special s) \<Longrightarrow> has_url s"
proof (induction s)
  case Nil
  then show ?case by (simp add: replace_special_def)
next
  case (Cons c cs)
  have split: "replace_special (c # cs) = (if allowed c then c else 32) # replace_special cs"
    by (simp add: replace_special_def)
  from Cons.prems have "url_at (replace_special (c # cs)) \<or> has_url (replace_special cs)"
    by (simp add: split)
  then show ?case
    using url_at_replace_special [of "c # cs"] Cons.IH by auto
qed

lemma space_32: "is_space 32"
  by (simp add: is_space_def)

lemma collapse_spaces_context: "url_at (p @ collapse_spaces s) \<Longrightarrow> url_at (p @ s)"
proof (induction s arbitrary: p rule: collapse_spaces.induct)
  case 1
  then show ?case by simp
next
  case (2 c cs)
  show ?case
  proof (cases "is_space c")
    case True
    with "2.prems" have at: "url_at (p @ 32 # collapse_spaces (dropWhile is_space cs))" by simp
    then have "5 \<le> length p"
      by (rule url_at_before_space) (simp add: space_32)
    with at show ?thesis using url_at_context by blast
  next
    case False
    with "2.prems" have "url_at ((p @ [c]) @ collapse_spaces cs)" by simp
    with False "2.IH"(2) have "url_at ((p @ [c]) @ cs)" by blast
    then show ?thesis by simp
  qed
qed

lemma has_url_collapse_spaces: "has_url (collapse_spaces s) \<Longrightarrow> has_url s"
proof (induction s rule: collapse_spaces.induct)
  case 1
  then show ?case by simp
next
  case (2 c cs)
  show ?case
  proof (cases "is_space c")
    case True
    with "2.prems" have "has_url (collapse_spaces (dropWhile is_space cs))"
      by (simp add: url_at_not_space space_32)
    with True "2.IH"(1) have "has_url (dropWhile is_space cs)" by blast
    then have "has_url cs" by (rule has_url_dropWhile)
    then show ?thesis by simp
  next
    case False
    with "2.prems" have "url_at (c # collapse_spaces cs) \<or> has_url (collapse_spaces cs)"
      by simp
    then show ?thesis
      using collapse_spaces_context [of "[c]" cs] "2.IH"(2) False by auto
  qed
qed

lemma lower_plain: "\<forall>c \<in> set s. \<not> is_upper c \<Longrightarrow> lower s = s"
  by (simp add: lower_def lower_char_def map_idI)

lemma replace_special_no_upper:
  "\<forall>c \<in> set s. \<not> is_upper c \<Longrightarrow> \<forall>c \<in> set (replace_special s). \<not> is_upper c"
  by (auto simp: replace_special_def is_upper_def)

lemma clean_str_no_url:
  assumes "\<forall>c \<in> set s. \<not> is_upper c"
  shows "\<not> has_url (clean_str s)"
proof
  assume "has_url (clean_str s)"
  then have "has_url (lower (replace_special (remove_urls s)))"
    unfolding clean_str_def by (blast dest: has_url_strip has_url_collapse_spaces)
  moreover have "\<forall>c \<in> set (replace_special (remove_urls s)). \<not> is_upper c"
    using assms set_remove_urls [of s] by (intro replace_special_no_upper) blast
  ultimately have "has_url (replace_special (remove_urls s))"
    by (simp add: lower_plain)
  then have "has_url (remove_urls s)" by (rule has_url_replace_special)
  then show False by (simp add: remove_urls_no_url)
qed

subsection \<open>The shape of a cleaned text\<close>

lemma plain_char_lower: "plain_char (lower_char (if allowed c then c else 32))"
  by (auto simp: plain_char_def lower_char_def allowed_def is_upper_def is_lower_def is_space_def)

lemma plain_char_facts: "plain_char c \<Longrightarrow> allowed c \<and> \<not> is_upper c"
  by (auto simp: plain_char_def allowed_def is_upper_def is_lower_def is_digit_def is_punct_def
      is_space_def)

lemma plain_32: "plain_char 32"
  by (simp add: plain_char_def is_space_def)

lemma set_collapse_spaces: "set (collapse_spaces s) \<subseteq> insert 32 (set s)"
proof (induction s rule: collapse_spaces.induct)
  case 1
  then show ?case by simp
next
  case (2 c cs)
  have "set (dropWhile is_space cs) \<subseteq> set cs"
    by (auto dest: set_dropWhileD)
  with 2 show ?case by (cases "is_space c") auto
qed

lemma set_strip: "set (strip s) \<subseteq> set s"
  by (auto simp: strip_def dest!: set_dropWhileD)

lemma clean_str_plain: "c \<in> set (clean_str s) \<Longrightarrow> plain_char c"
proof -
  assume "c \<in> set (clean_str s)"
  then have "c \<in> insert 32 (set (lower (replace_special (remove_urls s))))"
    unfolding clean_str_def using set_strip set_collapse_spaces by blast
  then show ?thesis
    by (auto simp: plain_32 lower_def replace_special_def plain_char_lower)
qed

lemma collapse_spaces_first:
  "y = [] \<or> \<not> is_space (hd y) \<Longrightarrow> collapse_spaces y = [] \<or> \<not> is_space (hd (collapse_spaces y))"
  by (cases y) auto

lemma dropWhile_first: "dropWhile P cs = [] \<or> \<not> P (hd (dropWhile P cs))"
  using hd_dropWhile [of P cs] by auto

lemma tidy_Cons_space:
  "tidy r \<Longrightarrow> r = [] \<or> \<not> is_space (hd r) \<Longrightarrow> tidy (32 # r)"
  by (cases r) (simp_all add: space_32)

lemma tidy_Cons_other: "tidy r \<Longrightarrow> \<not> is_space c \<Longrightarrow> tidy (c # r)"
  by (cases r) simp_all

lemma tidy_collapse_spaces: "tidy (collapse_spaces s)"
proof (induction s rule: collapse_spaces.induct)
  case 1
  then show ?case by simp
next
  case (2 c cs)
  show ?case
  proof (cases "is_space c")
    case True
    have "collapse_spaces (dropWhile is_space cs) = []
            \<or> \<not> is_space (hd (collapse_spaces (dropWhile is_space cs)))"
      by (rule collapse_spaces_first) (rule dropWhile_first)
    with True "2.IH"(1) show ?thesis
      by (simp add: tidy_Cons_space)
  next
    case False
    with "2.IH"(2) show ?thesis
      by (simp add: tidy_Cons_other)
  qed
qed

lemma tidy_tl: "tidy (c # cs) \<Longrightarrow> tidy cs"
  by (cases cs) simp_all

lemma tidy_dropWhile: "tidy s \<Longrightarrow> tidy (dropWhile P s)"
  by (induction s) (auto dest: tidy_tl)

lemma tidy_prefix: "tidy (xs @ ys) \<Longrightarrow> tidy xs"
proof (induction xs rule: tidy.induct)
  case 1
  then show ?case by simp
next
  case (2 c)
  then show ?case by (cases ys) simp_all
next
  case (3 c d r)
  then show ?case by simp
qed

lemma tidy_strip: "tidy s \<Longrightarrow> tidy (strip s)"
proof -
  assume "tidy s"
  then have "tidy (dropWhile is_space s)" by (rule tidy_dropWhile)
  then have "tidy (rev (dropWhile is_space (rev (dropWhile is_space s)))
               @ rev (takeWhile is_space (rev (dropWhile is_space s))))"
    by (simp only: rstrip_prefix)
  then show ?thesis unfolding strip_def by (rule tidy_prefix)
qed

lemma collapse_spaces_tidy: "tidy s \<Longrightarrow> collapse_spaces s = s"
proof (induction s rule: tidy.induct)
  case 1
  then show ?case by simp
next
  case (2 c)
  then show ?case by simp
next
  case (3 c d r)
  then show ?case by auto
qed

lemma last_dropWhile: "dropWhile P xs \<noteq> [] \<Longrightarrow> last (dropWhile P xs) = last xs"
proof -
  assume ne: "dropWhile P xs \<noteq> []"
  have "last (takeWhile P xs @ dropWhile P xs) = last (dropWhile P xs)"
    using ne by (rule last_appendR)
  then show ?thesis by simp
qed

lemma strip_ends:
  "strip s = [] \<or> (\<not> is_space (hd (strip s)) \<and> \<not> is_space (last (strip s)))"
proof (cases "strip s = []")
  case True
  then show ?thesis by simp
next
  case False
  let ?a = "dropWhile is_space s"
  let ?b = "dropWhile is_space (rev ?a)"
  from False have b: "?b \<noteq> []" by (simp add: strip_def)
  have a: "?a \<noteq> []"
  proof
    assume e: "?a = []"
    have "?b = []" unfolding e by simp
    with b show False by simp
  qed
  have "\<not> is_space (hd ?b)" using b by (rule hd_dropWhile)
  then have l: "\<not> is_space (last (strip s))"
    using b by (simp add: strip_def last_rev)
  have "last ?b = last (rev ?a)" using b by (rule last_dropWhile)
  also have "\<dots> = hd ?a" using a by (simp add: last_rev)
  finally have "hd (strip s) = hd ?a" using b by (simp add: strip_def hd_rev)
  moreover have "\<not> is_space (hd ?a)" using a by (rule hd_dropWhile)
  ultimately show ?thesis using l by simp
qed

lemma strip_fixed:
  assumes "t = [] \<or> (\<not> is_space (hd t) \<and> \<not> is_space (last t))"
  shows "strip t = t"
proof (cases "t = []")
  case True
  then show ?thesis by (simp add: strip_def)
next
  case False
  with assms have h: "\<not> is_space (hd t)" and l: "\<not> is_space (last t)" by auto
  from h False have "dropWhile is_space t = t"
    by (cases t) simp_all
  moreover from l False have "dropWhile is_space (rev t) = rev t"
    by (cases "rev t") (simp_all add: hd_rev [symmetric])
  ultimately show ?thesis by (simp add: strip_def)
qed

lemma length_collapse_spaces: "length (collapse_spaces s) \<le> length s"
proof (induction s rule: collapse_spaces.induct)
  case 1
  then show ?case by simp
next
  case (2 c cs)
  have "length (dropWhile is_space cs) \<le> length cs"
    by (rule length_dropWhile_le)
  with 2 show ?case by (cases "is_space c") auto
qed

lemma length_strip: "length (strip s) \<le> length s"
proof -
  have "length (strip s) \<le> length (dropWhile is_space s)"
    using length_dropWhile_le [of is_space "rev (dropWhile is_space s)"]
    by (simp add: strip_def)
  also have "\<dots> \<le> length s" by (rule length_dropWhile_le)
  finally show ?thesis .
qed

lemma length_clean_str: "length (clean_str s) \<le> length (remove_urls s)"
proof -
  have "length (clean_str s) \<le> length (collapse_spaces (lower (replace_special (remove_urls s))))"
    unfolding clean_str_def by (rule length_strip)
  also have "\<dots> \<le> length (lower (replace_special (remove_urls s)))"
    by (rule length_collapse_spaces)
  also have "\<dots> = length (remove_urls s)"
    by (simp add: lower_def replace_special_def)
  finally show ?thesis .
qed

lemma clean_str_fixed:
  assumes t: "t = clean_str s" and free: "\<not> has_url t"
  shows "clean_str t = t"
proof -
  have plain: "\<forall>c \<in> set t. allowed c \<and> \<not> is_upper c"
    using clean_str_plain plain_char_facts unfolding t by blast
  have tidy: "tidy t"
    unfolding t clean_str_def by (rule tidy_strip) (rule tidy_collapse_spaces)
  have ends: "t = [] \<or> (\<not> is_space (hd t) \<and> \<not> is_space (last t))"
    unfolding t clean_str_def by (rule strip_ends)
  have "remove_urls t = t" using free by (rule remove_urls_fixed)
  moreover have "replace_special t = t"
    using plain by (simp add: replace_special_def map_idI)
  moreover have "lower t = t"
    using plain by (simp add: lower_plain)
  moreover have "collapse_spaces t = t" using tidy by (rule collapse_spaces_tidy)
  moreover have "strip t = t" using ends by (rule strip_fixed)
  ultimately show ?thesis by (simp add: clean_str_def)
qed

lemma clean_str_changes:
  assumes "has_url t"
  shows "clean_str t \<noteq> t"
proof
  assume "clean_str t = t"
  then have "length t \<le> length (remove_urls t)"
    using length_clean_str [of t] by simp
  with remove_urls_shorter [OF assms] show False by simp
qed

text \<open>
  Where cleaning twice differs from cleaning once: exactly on the texts whose cleaned
  form still has a URL in it. A text with no capital letter A to Z is not among them.
\<close>

lemma clean_text_twice_iff:
  "(clean_text (PyStr (clean_text (PyStr s))) = clean_text (PyStr s))
     = (\<not> has_url (clean_text (PyStr s))) \<and>
   ((\<forall>c \<in> set s. \<not> is_upper c) \<longrightarrow>
      clean_text (PyStr (clean_text (PyStr s))) = clean_text (PyStr s))"
proof -
  have iff: "(clean_str (clean_str s) = clean_str s) = (\<not> has_url (clean_str s))"
    using clean_str_fixed [of "clean_str s" s] clean_str_changes [of "clean_str s"] by blast
  have "clean_str (clean_str s) = clean_str s" if "\<forall>c \<in> set s. \<not> is_upper c"
    using clean_str_no_url [OF that] iff by simp
  with iff show ?thesis by (simp add: clean_text_def)
qed

text \<open>
  Claim C3 says that \<open>clean_text\<close> is idempotent, and the program says of itself that it
  removes URLs (the docstring of \<open>clean_text\<close> and the comment on its first step). It
  does neither on \<open>Visit WWW.EXAMPLE.COM today\<close>: the pattern for URLs knows lowercase
  only and runs before the text is lowercased, so the first cleaning returns
  \<open>visit www.example.com today\<close>, which has a URL that the pattern matches, and the
  second cleaning returns \<open>visit today\<close>.
\<close>

theorem clean_text_twice_failing_input:
  "clean_text (PyStr (ustr ''Visit WWW.EXAMPLE.COM today'')) = ustr ''visit www.example.com today'' \<and>
   has_url (clean_text (PyStr (ustr ''Visit WWW.EXAMPLE.COM today''))) \<and>
   clean_text (PyStr (clean_text (PyStr (ustr ''Visit WWW.EXAMPLE.COM today'')))) = ustr ''visit today'' \<and>
   clean_text (PyStr (clean_text (PyStr (ustr ''Visit WWW.EXAMPLE.COM today''))))
     \<noteq> clean_text (PyStr (ustr ''Visit WWW.EXAMPLE.COM today''))"
proof -
  have a: "clean_text (PyStr (ustr ''Visit WWW.EXAMPLE.COM today'')) = ustr ''visit www.example.com today''"
    by (simp add: clean_defs)
  have b: "clean_text (PyStr (ustr ''visit www.example.com today'')) = ustr ''visit today''"
    by (simp add: clean_defs)
  have c: "ustr ''visit today'' \<noteq> ustr ''visit www.example.com today''"
    by (simp add: ustr_def)
  have d: "has_url (ustr ''visit www.example.com today'')"
    by (simp add: ustr_def is_space_def)
  from a b c d show ?thesis by simp
qed

section \<open>The example of clean\_text\<close>

text \<open>
  Claim C4, as the program has it: \<open>clean_text\<close> applied to the text
  \<open>Check http://x.co AMAZING!!\<close>, a space, the emoji U+1F60A, two spaces and \<open>service\<close>
  returns \<open>check amazing!! service\<close>. Only the URL is deleted; the word before it stays.
\<close>

theorem clean_text_example:
  "clean_text (PyStr (ustr ''Check http://x.co AMAZING!! '' @ [128522] @ ustr ''  service''))
     = ustr ''check amazing!! service''"
  by (simp add: clean_defs)

text \<open>The result is not \<open>amazing!! service\<close>.\<close>

theorem clean_text_example_counterexample:
  "clean_text (PyStr (ustr ''Check http://x.co AMAZING!! '' @ [128522] @ ustr ''  service''))
     \<noteq> ustr ''amazing!! service''"
  by (simp add: clean_defs)

section \<open>Raw texts that are not strings\<close>

text \<open>
  Claim C5, as the program has it: \<open>preprocess_reviews\<close> passes the text column through
  \<open>astype(str)\<close> before it cleans, so the \<open>clean_text\<close> of a record is \<open>clean_text\<close> of
  what \<open>astype(str)\<close> makes of its raw text. A string is cleaned as it is. A missing value
  (\<open>None\<close>, NaN) that \<open>astype(str)\<close> leaves missing gives the empty string. An integer
  is turned into its decimal digits first and gives those digits, which is never the
  empty string.
\<close>

theorem preprocess_reviews_text_form:
  assumes valid: "df < length st"
    and col: "get_column (st ! df) (ustr ''text'') = Inr col"
  shows "\<exists>df' st'. preprocess_reviews render missing st df = (Inr df', st') \<and>
           get_column (st' ! df') (ustr ''clean_text'') =
             Inr (map (\<lambda>v. PyStr (clean_text (astype_cell render missing v))) col) \<and>
           (\<forall>s. clean_text (astype_cell render missing (PyStr s)) = clean_text (PyStr s)) \<and>
           (\<forall>v. is_null v \<and> (\<forall>s. missing v \<noteq> PyStr s) \<longrightarrow>
                clean_text (astype_cell render missing v) = []) \<and>
           (\<forall>n. clean_text (astype_cell render missing (PyInt n)) = digits (nat \<bar>n\<bar>) \<and>
                digits (nat \<bar>n\<bar>) \<noteq> [])"
proof -
  have s: "clean_text (astype_cell render missing (PyStr s)) = clean_text (PyStr s)" for s
    by (simp add: astype_cell_def is_null_def)
  have m: "clean_text (astype_cell render missing v) = []"
    if "is_null v \<and> (\<forall>s. missing v \<noteq> PyStr s)" for v
    using that by (cases "missing v") (simp_all add: astype_cell_def clean_text_def)
  have n: "clean_text (astype_cell render missing (PyInt n)) = digits (nat \<bar>n\<bar>) \<and>
           digits (nat \<bar>n\<bar>) \<noteq> []" for n
    by (simp add: astype_cell_def is_null_def clean_text_def clean_str_str_int digits_nonempty)
  from col have "preprocess_reviews render missing st df =
      (Inr (length st),
       st @ [assign_series (st ! df) (ustr ''clean_text'')
               (map (\<lambda>v. PyStr (clean_text (astype_cell render missing v))) col)])"
    by (simp add: preprocess_reviews_cases)
  with s m n show ?thesis
    by (simp add: get_column_assign_series)
qed

text \<open>On a frame whose raw texts are a string, the number 5 and \<open>None\<close>, kept missing.\<close>

theorem preprocess_reviews_text_form_witness:
  "0 < length [raw_frame] \<and>
   get_column ([raw_frame] ! 0) (ustr ''text'') =
     Inr [PyStr (ustr ''Great FOOD!''), PyInt 5, PyNone] \<and>
   (\<exists>df' st'. preprocess_reviews no_render keep_missing [raw_frame] 0 = (Inr df', st') \<and>
      get_column (st' ! df') (ustr ''clean_text'') =
        Inr [PyStr (ustr ''great food!''), PyStr (ustr ''5''), PyStr []])"
proof -
  have h1: "0 < length [raw_frame]" by simp
  have h2: "get_column ([raw_frame] ! 0) (ustr ''text'') =
      Inr [PyStr (ustr ''Great FOOD!''), PyInt 5, PyNone]"
    by (simp add: get_column_def raw_frame_def ustr_def)
  have c1: "clean_text (PyStr (ustr ''Great FOOD!'')) = ustr ''great food!''"
    by (simp add: clean_defs)
  have c2: "digits (nat \<bar>5\<bar>) = ustr ''5''"
    by (simp add: digits.simps ustr_def)
  have c3: "is_null PyNone \<and> (\<forall>s. keep_missing PyNone \<noteq> PyStr s)"
    by (simp add: is_null_def keep_missing_def)
  have "\<exists>df' st'. preprocess_reviews no_render keep_missing [raw_frame] 0 = (Inr df', st') \<and>
      get_column (st' ! df') (ustr ''clean_text'') =
        Inr [PyStr (ustr ''great food!''), PyStr (ustr ''5''), PyStr []]"
    using preprocess_reviews_text_form [where df = 0 and st = "[raw_frame]" and render = no_render
        and missing = keep_missing, OF h1 h2] c1 c2 c3
    by auto
  with h1 h2 show ?thesis by blast
qed

text \<open>The cleaned text of the number 5 is \<open>5\<close>, not the empty string.\<close>

theorem preprocess_reviews_text_form_counterexample:
  "get_column (snd (preprocess_reviews no_render keep_missing [raw_frame] 0) ! 1)
     (ustr ''clean_text'') =
     Inr [PyStr (ustr ''great food!''), PyStr (ustr ''5''), PyStr []] \<and>
   PyStr (ustr ''5'') \<noteq> PyStr []"
proof -
  have c1: "clean_text (astype_cell no_render keep_missing (PyStr (ustr ''Great FOOD!'')))
      = ustr ''great food!''"
    by (simp add: astype_cell_def is_null_def clean_defs)
  have c2: "clean_text (astype_cell no_render keep_missing (PyInt 5)) = ustr ''5''"
    by (simp add: astype_cell_def is_null_def clean_defs str_int_def digits.simps)
  have c3: "clean_text (astype_cell no_render keep_missing PyNone) = []"
    by (simp add: astype_cell_def is_null_def keep_missing_def clean_text_def)
  have "get_column raw_frame (ustr ''text'') = Inr [PyStr (ustr ''Great FOOD!''), PyInt 5, PyNone]"
    by (simp add: get_column_def raw_frame_def ustr_def)
  then have "get_column (snd (preprocess_reviews no_render keep_missing [raw_frame] 0) ! 1)
      (ustr ''clean_text'') =
      Inr [PyStr (ustr ''great food!''), PyStr (ustr ''5''), PyStr []]"
    by (simp add: preprocess_reviews_cases get_column_assign_series c1 c2 c3)
  then show ?thesis by (simp add: ustr_def)
qed

section \<open>The fetcher without a key\<close>

text \<open>
  Claim C6: called with no \<open>api_key\<close> argument while the configured key is the empty
  string, \<open>fetch_google_maps_reviews\<close> raises \<open>ValueError\<close>, and the log of requests is
  the one it was given: no request has been made.
\<close>

theorem fetch_without_key:
  "fetch_google_maps_reviews [] net infer log place_id None hl = (Inl ValueError, log)"
  by (simp add: fetch_google_maps_reviews_def)

section \<open>A response without reviews\<close>

lemma py_get_non_dict: "\<not> is_dict v \<Longrightarrow> py_get v k d = Inl AttributeError"
  by (cases v) (simp_all add: py_get_def is_dict_def)

lemma collect_rows_non_dict:
  "\<exists>x \<in> set xs. \<not> is_dict x \<Longrightarrow> collect_rows xs rows = Inl AttributeError"
proof (induction xs arbitrary: rows)
  case Nil
  then show ?case by simp
next
  case (Cons x xs)
  show ?case
  proof (cases "is_dict x")
    case False
    then show ?thesis by (simp add: py_get_non_dict)
  next
    case True
    then obtain items where x: "x = PyDict items"
      by (cases x) (simp_all add: is_dict_def)
    from True Cons.prems have "\<exists>y \<in> set xs. \<not> is_dict y" by auto
    then have "collect_rows xs rows' = Inl AttributeError" for rows'
      by (rule Cons.IH)
    then show ?thesis by (simp add: x py_get_def)
  qed
qed

lemma malformed_reviews:
  assumes "truthy v"
    and "\<forall>xs. v = PyList xs \<longrightarrow> \<not> list_all is_dict xs"
    and "\<forall>d. v = PyDict d \<longrightarrow> list_all (\<lambda>kv. is_str (fst kv)) d"
  shows "py_iter v = Inl TypeError \<or>
         (\<exists>xs. py_iter v = Inr xs \<and> collect_rows xs [] = Inl AttributeError)"
proof (cases v)
  case (PyStr s)
  with assms(1) obtain c cs where "s = c # cs" by (cases s) simp_all
  then have "\<exists>x \<in> set (map (\<lambda>c. PyStr [c]) s). \<not> is_dict x"
    by (simp add: is_dict_def)
  then show ?thesis
    using PyStr collect_rows_non_dict by (simp add: py_iter_def)
next
  case (PyList xs)
  with assms(2) have "\<exists>x \<in> set xs. \<not> is_dict x"
    by (simp add: list_all_iff)
  then show ?thesis
    using PyList collect_rows_non_dict by (simp add: py_iter_def)
next
  case (PyDict d)
  with assms(1) obtain kv rest where d: "d = kv # rest" by (cases d) simp_all
  with PyDict assms(3) have "is_str (fst kv)" by simp
  then have "\<not> is_dict (fst kv)"
    by (cases "fst kv") (simp_all add: is_str_def is_dict_def)
  with d have "\<exists>x \<in> set (map fst d). \<not> is_dict x" by simp
  then show ?thesis
    using PyDict collect_rows_non_dict by (simp add: py_iter_def)
qed (simp_all add: py_iter_def)

text \<open>
  Claim C7, as the program has it: when the provider answers with a JSON object whose
  \<open>reviews\<close> field is absent or is a value that counts as false (\<open>null\<close>, \<open>false\<close>, zero,
  the empty string, the empty list, the empty object), \<open>fetch_google_maps_reviews\<close>
  returns the empty collection with exactly the columns author, rating, date and text,
  after its one request, and does not raise. When the field is a value that counts as
  true and is not a list of objects (a number, \<open>true\<close>, a non-empty string, a non-empty
  object, a list with an element that is not an object), the call raises \<open>TypeError\<close> or
  \<open>AttributeError\<close> after its one request. The keys of an object of JSON are strings.
\<close>

theorem fetch_no_reviews:
  assumes key: "key = (case api_key of None \<Rightarrow> configured | Some k \<Rightarrow> k)" "key \<noteq> []"
    and resp: "net (reviews_request place_id hl key) = Inr r"
    and ok: "\<not> (400 \<le> status_code r \<and> status_code r < 600)"
    and body: "json_body r = Some (PyDict items)"
  shows "((\<forall>v. map_of items (PyStr (ustr ''reviews'')) = Some v \<longrightarrow> \<not> truthy v) \<longrightarrow>
            fetch_google_maps_reviews configured net infer log place_id api_key hl =
              (Inr \<lparr>nrows = 0,
                    columns = [(ustr ''author'', []), (ustr ''rating'', []), (ustr ''date'', []),
                               (ustr ''text'', [])]\<rparr>,
               log @ [reviews_request place_id hl key])) \<and>
         (\<forall>v. map_of items (PyStr (ustr ''reviews'')) = Some v \<and> truthy v \<and>
               (\<forall>xs. v = PyList xs \<longrightarrow> \<not> list_all is_dict xs) \<and>
               (\<forall>d. v = PyDict d \<longrightarrow> list_all (\<lambda>kv. is_str (fst kv)) d) \<longrightarrow>
            (\<exists>e. fetch_google_maps_reviews configured net infer log place_id api_key hl =
                   (Inl e, log @ [reviews_request place_id hl key]) \<and>
                 (e = TypeError \<or> e = AttributeError)))"
proof (intro conjI impI allI)
  assume "\<forall>v. map_of items (PyStr (ustr ''reviews'')) = Some v \<longrightarrow> \<not> truthy v"
  with assms show "fetch_google_maps_reviews configured net infer log place_id api_key hl =
      (Inr \<lparr>nrows = 0,
            columns = [(ustr ''author'', []), (ustr ''rating'', []), (ustr ''date'', []),
                       (ustr ''text'', [])]\<rparr>,
       log @ [reviews_request place_id hl key])"
    by (auto simp: fetch_google_maps_reviews_def Let_def py_get_def empty_frame_def
        split: option.splits)
next
  fix v
  assume v: "map_of items (PyStr (ustr ''reviews'')) = Some v \<and> truthy v \<and>
      (\<forall>xs. v = PyList xs \<longrightarrow> \<not> list_all is_dict xs) \<and>
      (\<forall>d. v = PyDict d \<longrightarrow> list_all (\<lambda>kv. is_str (fst kv)) d)"
  then have "py_iter v = Inl TypeError \<or>
      (\<exists>xs. py_iter v = Inr xs \<and> collect_rows xs [] = Inl AttributeError)"
    by (intro malformed_reviews) simp_all
  with v assms
  show "\<exists>e. fetch_google_maps_reviews configured net infer log place_id api_key hl =
          (Inl e, log @ [reviews_request place_id hl key]) \<and>
        (e = TypeError \<or> e = AttributeError)"
    by (auto simp: fetch_google_maps_reviews_def Let_def py_get_def split: option.splits)
qed

text \<open>On an answer with an empty list of reviews, and on one whose reviews are the number 7.\<close>

theorem fetch_no_reviews_witness:
  "ustr ''k1'' = (case Some (ustr ''k1'') of None \<Rightarrow> [] | Some k \<Rightarrow> k) \<and> ustr ''k1'' \<noteq> [] \<and>
   respond_with \<lparr>status_code = 200,
                  json_body = Some (PyDict [(PyStr (ustr ''search_metadata''), PyDict []),
                                            (PyStr (ustr ''reviews''), PyList [])])\<rparr>
     (reviews_request (ustr ''place1'') DEFAULT_HL (ustr ''k1'')) =
     Inr \<lparr>status_code = 200,
          json_body = Some (PyDict [(PyStr (ustr ''search_metadata''), PyDict []),
                                    (PyStr (ustr ''reviews''), PyList [])])\<rparr> \<and>
   fetch_google_maps_reviews []
     (respond_with \<lparr>status_code = 200,
                     json_body = Some (PyDict [(PyStr (ustr ''search_metadata''), PyDict []),
                                               (PyStr (ustr ''reviews''), PyList [])])\<rparr>)
     as_given [] (ustr ''place1'') (Some (ustr ''k1'')) DEFAULT_HL =
     (Inr \<lparr>nrows = 0,
           columns = [(ustr ''author'', []), (ustr ''rating'', []), (ustr ''date'', []),
                      (ustr ''text'', [])]\<rparr>,
      [reviews_request (ustr ''place1'') DEFAULT_HL (ustr ''k1'')]) \<and>
   (\<exists>e. fetch_google_maps_reviews []
          (respond_with \<lparr>status_code = 200,
                          json_body = Some (PyDict [(PyStr (ustr ''reviews''), PyInt 7)])\<rparr>)
          as_given [] (ustr ''place1'') (Some (ustr ''k1'')) DEFAULT_HL =
          (Inl e, [reviews_request (ustr ''place1'') DEFAULT_HL (ustr ''k1'')]) \<and>
        (e = TypeError \<or> e = AttributeError))"
proof -
  let ?r = "\<lparr>status_code = 200,
             json_body = Some (PyDict [(PyStr (ustr ''search_metadata''), PyDict []),
                                       (PyStr (ustr ''reviews''), PyList [])])\<rparr>"
  let ?q = "\<lparr>status_code = 200,
             json_body = Some (PyDict [(PyStr (ustr ''reviews''), PyInt 7)])\<rparr>"
  have h1: "ustr ''k1'' = (case Some (ustr ''k1'') of None \<Rightarrow> [] | Some k \<Rightarrow> k)" by simp
  have h2: "ustr ''k1'' \<noteq> []" by (simp add: ustr_def)
  have h3: "respond_with ?r (reviews_request (ustr ''place1'') DEFAULT_HL (ustr ''k1'')) = Inr ?r"
    by (simp add: respond_with_def)
  have h4: "\<not> (400 \<le> status_code ?r \<and> status_code ?r < 600)" by simp
  have h5: "json_body ?r = Some (PyDict [(PyStr (ustr ''search_metadata''), PyDict []),
                                       (PyStr (ustr ''reviews''), PyList [])])" by simp
  have h6: "\<forall>v. map_of [(PyStr (ustr ''search_metadata''), PyDict []),
                    (PyStr (ustr ''reviews''), PyList [])] (PyStr (ustr ''reviews'')) = Some v
              \<longrightarrow> \<not> truthy v"
    by (simp add: ustr_def)
  have g3: "respond_with ?q (reviews_request (ustr ''place1'') DEFAULT_HL (ustr ''k1'')) = Inr ?q"
    by (simp add: respond_with_def)
  have g4: "\<not> (400 \<le> status_code ?q \<and> status_code ?q < 600)" by simp
  have g5: "json_body ?q = Some (PyDict [(PyStr (ustr ''reviews''), PyInt 7)])" by simp
  have g6: "map_of [(PyStr (ustr ''reviews''), PyInt 7)] (PyStr (ustr ''reviews'')) = Some (PyInt 7) \<and>
      truthy (PyInt 7) \<and> (\<forall>xs. PyInt 7 = PyList xs \<longrightarrow> \<not> list_all is_dict xs) \<and>
      (\<forall>d. PyInt 7 = PyDict d \<longrightarrow> list_all (\<lambda>kv. is_str (fst kv)) d)"
    by simp
  note first = fetch_no_reviews [where log = "[]" and configured = "[]" and key = "ustr ''k1''"
        and api_key = "Some (ustr ''k1'')" and net = "respond_with ?r" and r = "?r"
        and place_id = "ustr ''place1''" and hl = DEFAULT_HL and infer = as_given,
        OF h1 h2 h3 h4 h5, THEN conjunct1, THEN mp, OF h6]
  note second = fetch_no_reviews [where log = "[]" and configured = "[]" and key = "ustr ''k1''"
        and api_key = "Some (ustr ''k1'')" and net = "respond_with ?q" and r = "?q"
        and place_id = "ustr ''place1''" and hl = DEFAULT_HL and infer = as_given,
        OF h1 h2 g3 g4 g5, THEN conjunct2, THEN spec, THEN mp, OF g6]
  show ?thesis
    using h1 h2 h3 first second by simp
qed

text \<open>
  A \<open>reviews\<close> field that is a non-empty string is malformed, and the fetcher raises on
  it: the loop takes its characters for reviews and calls \<open>get\<close> on them.
\<close>

theorem fetch_no_reviews_counterexample:
  "fetch_google_maps_reviews []
     (respond_with \<lparr>status_code = 200,
                     json_body = Some (PyDict [(PyStr (ustr ''reviews''), PyStr (ustr ''none''))])\<rparr>)
     as_given [] (ustr ''place1'') (Some (ustr ''k1'')) DEFAULT_HL =
     (Inl AttributeError, [reviews_request (ustr ''place1'') DEFAULT_HL (ustr ''k1'')])"
  by (simp add: fetch_google_maps_reviews_def Let_def respond_with_def py_get_def py_iter_def
      ustr_def)

section \<open>The statistics of an empty collection\<close>

lemma wf_frame_column:
  assumes "wf_frame df" and "has_column df name"
  shows "\<exists>col. get_column df name = Inr col \<and> length col = nrows df"
proof -
  from assms(2) obtain col where col: "map_of (columns df) name = Some col"
    by (auto simp: has_column_map_of)
  then have "(name, col) \<in> set (columns df)"
    by (rule map_of_SomeD)
  with assms(1) have "length col = nrows df"
    by (auto simp: wf_frame_def list_all_iff)
  with col show ?thesis
    by (simp add: get_column_def)
qed

lemma value_counts_empty: "value_counts [] = []"
  by (simp add: value_counts_def)

text \<open>
  Claim C8: on an empty collection with no \<open>rating\<close> column, \<open>compute_basic_stats\<close>
  returns \<open>total_reviews = 0\<close> and \<open>avg_rating = None\<close>, with an empty \<open>sentiment_counts\<close>,
  and does not raise. The collection is one that has its sentiment labels, which is what
  the function is given.
\<close>

theorem compute_basic_stats_empty:
  assumes "wf_frame df" and "nrows df = 0"
    and "\<not> has_column df (ustr ''rating'')"
    and "has_column df (ustr ''sentiment'')"
  shows "compute_basic_stats mean df =
           Inr \<lparr>total_reviews = 0, avg_rating = PyNone, sentiment_counts = PyDict []\<rparr>"
proof -
  from wf_frame_column [OF assms(1) assms(4)] assms(2)
  have "get_column df (ustr ''sentiment'') = Inr []"
    by auto
  with assms(2,3) show ?thesis
    by (simp add: compute_basic_stats_def value_counts_empty to_dict_def)
qed

text \<open>On the empty collection with the columns text and sentiment.\<close>

theorem compute_basic_stats_empty_witness:
  "wf_frame \<lparr>nrows = 0, columns = [(ustr ''text'', []), (ustr ''sentiment'', [])]\<rparr> \<and>
   nrows \<lparr>nrows = 0, columns = [(ustr ''text'', []), (ustr ''sentiment'', [])]\<rparr> = 0 \<and>
   \<not> has_column \<lparr>nrows = 0, columns = [(ustr ''text'', []), (ustr ''sentiment'', [])]\<rparr>
       (ustr ''rating'') \<and>
   has_column \<lparr>nrows = 0, columns = [(ustr ''text'', []), (ustr ''sentiment'', [])]\<rparr>
       (ustr ''sentiment'') \<and>
   compute_basic_stats no_mean
       \<lparr>nrows = 0, columns = [(ustr ''text'', []), (ustr ''sentiment'', [])]\<rparr> =
     Inr \<lparr>total_reviews = 0, avg_rating = PyNone, sentiment_counts = PyDict []\<rparr>"
proof -
  let ?df = "\<lparr>nrows = 0, columns = [(ustr ''text'', []), (ustr ''sentiment'', [])]\<rparr>"
  have h1: "wf_frame ?df" by (simp add: wf_frame_def ustr_def)
  have h2: "nrows ?df = 0" by simp
  have h3: "\<not> has_column ?df (ustr ''rating'')" by (simp add: has_column_def ustr_def)
  have h4: "has_column ?df (ustr ''sentiment'')" by (simp add: has_column_def)
  show ?thesis
    using h1 h3 h4 compute_basic_stats_empty [where mean = no_mean, OF h1 h2 h3 h4]
    by simp
qed

section \<open>The steps work on a copy\<close>

text \<open>
  Claim C9, as the program has it: \<open>preprocess_reviews\<close> and \<open>add_sentiment\<close> work on a
  copy. The frame passed in is the same after the call; the frame returned is another
  object, and it is the one that has the \<open>clean_text\<close> column, or the \<open>sentiment\<close> and
  \<open>sentiment_score\<close> columns.
\<close>

theorem steps_leave_input_unchanged:
  assumes "df < length st"
  shows "snd (preprocess_reviews render missing st df) ! df = st ! df \<and>
         snd (add_sentiment pipe st df) ! df = st ! df \<and>
         (\<forall>df'. fst (preprocess_reviews render missing st df) = Inr df' \<longrightarrow>
            df' \<noteq> df \<and> has_column (snd (preprocess_reviews render missing st df) ! df') (ustr ''clean_text'')) \<and>
         (\<forall>df'. fst (add_sentiment pipe st df) = Inr df' \<longrightarrow>
            df' \<noteq> df \<and> has_column (snd (add_sentiment pipe st df) ! df') (ustr ''sentiment'')
            \<and> has_column (snd (add_sentiment pipe st df) ! df') (ustr ''sentiment_score''))"
proof -
  have p1: "snd (preprocess_reviews render missing st df) ! df = st ! df"
    using assms by (simp add: preprocess_reviews_cases nth_append split: sum.splits)
  obtain d where "snd (add_sentiment pipe st df) = st @ [d]"
    using add_sentiment_store by blast
  then have p2: "snd (add_sentiment pipe st df) ! df = st ! df"
    using assms by (simp add: nth_append)
  have p3: "df' \<noteq> df \<and> has_column (snd (preprocess_reviews render missing st df) ! df') (ustr ''clean_text'')"
    if "fst (preprocess_reviews render missing st df) = Inr df'" for df'
    using that assms
    by (auto simp: preprocess_reviews_cases has_column_assign_series split: sum.splits)
  have p4: "df' \<noteq> df \<and> has_column (snd (add_sentiment pipe st df) ! df') (ustr ''sentiment'')
            \<and> has_column (snd (add_sentiment pipe st df) ! df') (ustr ''sentiment_score'')"
    if "fst (add_sentiment pipe st df) = Inr df'" for df'
    using add_sentiment_result [OF that] assms by auto
  from p1 p2 p3 p4 show ?thesis by blast
qed

text \<open>On the example frame.\<close>

theorem steps_leave_input_unchanged_witness:
  "0 < length [cleaned_frame] \<and>
   snd (preprocess_reviews no_render keep_missing [cleaned_frame] 0) ! 0 = cleaned_frame \<and>
   snd (add_sentiment three_results [cleaned_frame] 0) ! 0 = cleaned_frame \<and>
   fst (preprocess_reviews no_render keep_missing [cleaned_frame] 0) = Inr 1 \<and>
   has_column (snd (preprocess_reviews no_render keep_missing [cleaned_frame] 0) ! 1) (ustr ''clean_text'') \<and>
   fst (add_sentiment three_results [cleaned_frame] 0) = Inr 1 \<and>
   has_column (snd (add_sentiment three_results [cleaned_frame] 0) ! 1) (ustr ''sentiment'')"
proof -
  have h: "0 < length [cleaned_frame]" by simp
  have r1: "fst (preprocess_reviews no_render keep_missing [cleaned_frame] 0) = Inr 1"
    by (simp add: preprocess_reviews_cases get_column_def cleaned_frame_def ustr_def)
  have r2: "fst (add_sentiment three_results [cleaned_frame] 0) = Inr 1"
    by (simp add: add_sentiment_def df_copy_def assign_list_def three_results_def
      classify_eq nrows_assign_series get_column_def cleaned_frame_def ustr_def)
  show ?thesis
    using h r1 r2
      steps_leave_input_unchanged [where df = 0 and st = "[cleaned_frame]" and render = no_render
        and missing = keep_missing and pipe = three_results, OF h]
    by simp
qed

text \<open>
  After the calls the frame passed in has no \<open>clean_text\<close> column and no \<open>sentiment\<close>
  column.
\<close>

theorem steps_leave_input_unchanged_counterexample:
  "\<not> has_column (snd (preprocess_reviews no_render keep_missing [raw_frame] 0) ! 0) (ustr ''clean_text'') \<and>
   \<not> has_column (snd (add_sentiment three_results [cleaned_frame] 0) ! 0) (ustr ''sentiment'')"
  by (simp add: preprocess_reviews_cases add_sentiment_def df_copy_def assign_list_def three_results_def
      classify_eq nrows_assign_series get_column_def has_column_def raw_frame_def cleaned_frame_def ustr_def)

section \<open>Themes without a key\<close>

text \<open>
  Claim C10: for a themes dict, the prompt of \<open>generate_recommendations\<close> is built with
  the empty list in the place of a missing \<open>positive\<close> or \<open>negative\<close> key, and building
  it does not raise: so for the fallback value of \<open>extract_themes\<close>, for the empty dict,
  and for every value that \<open>extract_themes\<close> returns. On a collection with a
  \<open>sentiment\<close> column the function then is the LLM call on that prompt.
\<close>

theorem recommendations_prompt_missing_keys:
  "(\<forall>items.
      recommendations_prompt render n_reviews counts (PyDict items) =
        Inr (recommendations_text (str_int (int n_reviews)) (py_str render counts)
               (py_str render (case map_of items (PyStr (ustr ''positive'')) of
                                 None \<Rightarrow> PyList [] | Some v \<Rightarrow> v))
               (py_str render (case map_of items (PyStr (ustr ''negative'')) of
                                 None \<Rightarrow> PyList [] | Some v \<Rightarrow> v)))) \<and>
   (\<forall>raw.
      recommendations_prompt render n_reviews counts (fallback_themes raw) =
        Inr (recommendations_text (str_int (int n_reviews)) (py_str render counts)
               (py_str render (PyList [])) (py_str render (PyList [])))) \<and>
   recommendations_prompt render n_reviews counts (PyDict []) =
     Inr (recommendations_text (str_int (int n_reviews)) (py_str render counts)
            (py_str render (PyList [])) (py_str render (PyList []))) \<and>
   (\<forall>llm json_loads df n themes.
      extract_themes llm json_loads df n = Inr themes \<longrightarrow>
        (\<exists>prompt. recommendations_prompt render n_reviews counts themes = Inr prompt)) \<and>
   (\<forall>llm df col items.
      get_column df (ustr ''sentiment'') = Inr col \<longrightarrow>
        generate_recommendations llm render df (PyDict items) =
          call_llm llm
            (recommendations_text (str_int (int (nrows df)))
               (py_str render (to_dict (value_counts col)))
               (py_str render (case map_of items (PyStr (ustr ''positive'')) of
                                 None \<Rightarrow> PyList [] | Some v \<Rightarrow> v))
               (py_str render (case map_of items (PyStr (ustr ''negative'')) of
                                 None \<Rightarrow> PyList [] | Some v \<Rightarrow> v))))"
proof -
  have a: "recommendations_prompt render n_reviews counts (PyDict items) =
        Inr (recommendations_text (str_int (int n_reviews)) (py_str render counts)
               (py_str render (case map_of items (PyStr (ustr ''positive'')) of
                                 None \<Rightarrow> PyList [] | Some v \<Rightarrow> v))
               (py_str render (case map_of items (PyStr (ustr ''negative'')) of
                                 None \<Rightarrow> PyList [] | Some v \<Rightarrow> v)))" for items
    by (simp add: recommendations_prompt_def py_get_def)
  have b: "recommendations_prompt render n_reviews counts (fallback_themes raw) =
        Inr (recommendations_text (str_int (int n_reviews)) (py_str render counts)
               (py_str render (PyList [])) (py_str render (PyList [])))" for raw
    by (simp add: recommendations_prompt_def py_get_def fallback_themes_def ustr_def)
  have c: "\<exists>prompt. recommendations_prompt render n_reviews counts themes = Inr prompt"
    if "extract_themes llm json_loads df n = Inr themes" for llm json_loads df n themes
    using extract_themes_dict [OF that] a by auto
  from a [of "[]"] have d: "recommendations_prompt render n_reviews counts (PyDict []) =
     Inr (recommendations_text (str_int (int n_reviews)) (py_str render counts)
            (py_str render (PyList [])) (py_str render (PyList [])))"
    by simp
  have e: "generate_recommendations llm render df (PyDict items) =
          call_llm llm
            (recommendations_text (str_int (int (nrows df)))
               (py_str render (to_dict (value_counts col)))
               (py_str render (case map_of items (PyStr (ustr ''positive'')) of
                                 None \<Rightarrow> PyList [] | Some v \<Rightarrow> v))
               (py_str render (case map_of items (PyStr (ustr ''negative'')) of
                                 None \<Rightarrow> PyList [] | Some v \<Rightarrow> v)))"
    if "get_column df (ustr ''sentiment'') = Inr col" for llm df col items
    using that
    by (simp add: generate_recommendations_def recommendations_prompt_def py_get_def)
  from a b c d e show ?thesis by blast
qed

text \<open>On the fallback value of the example above.\<close>

theorem recommendations_prompt_missing_keys_witness:
  "extract_themes (reply_with (ustr '' Sorry, no themes. '')) not_json cleaned_frame 50 =
     Inr (fallback_themes (ustr ''Sorry, no themes.'')) \<and>
   recommendations_prompt no_render 3 (PyDict []) (fallback_themes (ustr ''Sorry, no themes.'')) =
     Inr (recommendations_text (ustr ''3'') [] [] []) \<and>
   (\<exists>prompt. recommendations_prompt no_render 3 (PyDict [])
      (fallback_themes (ustr ''Sorry, no themes.'')) = Inr prompt)"
  using extract_themes_example
    recommendations_prompt_missing_keys [of no_render 3 "PyDict []"]
  by (simp add: no_render_def str_int_def digits.simps ustr_def)

end
